theory Spec2Isabelle
  imports Complex_Main "HOL-Library.Multiset"
begin

section \<open>Time values\<close>

text \<open>
  A JavaScript \<open>Date\<close> holds a time value: the number of milliseconds since
  1970-01-01T00:00:00Z, an integer of magnitude at most 8.64e15, or NaN (an invalid
  Date). A valid Date is modelled by its time value, an \<open>int\<close>; where an operation can
  produce an invalid Date its result is an \<open>option\<close> and \<open>None\<close> is the invalid Date.
  The operations below follow ECMA-262, section "Date Objects".
\<close>

type_synonym time_value = int

definition msPerSecond :: int where "msPerSecond = 1000"
definition msPerMinute :: int where "msPerMinute = 60000"
definition msPerHour :: int where "msPerHour = 3600000"
definition msPerDay :: int where "msPerDay = 86400000"

definition valid_time :: "time_value \<Rightarrow> bool" where
  "valid_time t = (\<bar>t\<bar> \<le> 8640000000000000)"

definition TimeClip :: "int \<Rightarrow> time_value option" where
  "TimeClip t = (if \<bar>t\<bar> > 8640000000000000 then None else Some t)"

definition Day :: "int \<Rightarrow> int" where "Day t = t div msPerDay"
definition TimeWithinDay :: "int \<Rightarrow> int" where "TimeWithinDay t = t mod msPerDay"
definition HourFromTime :: "int \<Rightarrow> int" where "HourFromTime t = (t div msPerHour) mod 24"
definition MinFromTime :: "int \<Rightarrow> int" where "MinFromTime t = (t div msPerMinute) mod 60"
definition SecFromTime :: "int \<Rightarrow> int" where "SecFromTime t = (t div msPerSecond) mod 60"
definition msFromTime :: "int \<Rightarrow> int" where "msFromTime t = t mod msPerSecond"

definition MakeTime :: "int \<Rightarrow> int \<Rightarrow> int \<Rightarrow> int \<Rightarrow> int" where
  "MakeTime hour minute sec ms = hour * msPerHour + minute * msPerMinute + sec * msPerSecond + ms"

definition MakeDate :: "int \<Rightarrow> int \<Rightarrow> int" where
  "MakeDate day time = day * msPerDay + time"

text \<open>
  The calendar of ECMA-262. \<open>YearFromTime(t)\<close> is specified as the largest integer \<open>y\<close>
  with \<open>TimeFromYear(y) \<le> t\<close>; it is computed here from the mean length of a year,
  146097/400 days, which misses the year by at most one (lemma \<open>YearFromTime_largest\<close>
  shows that the result is that largest integer). Months are numbered from 0.
  \<open>month_start l m\<close> is the number of the first day of month \<open>m\<close> within a year with
  \<open>l\<close> leap days, the boundaries of the table that defines \<open>MonthFromTime\<close>.
\<close>

definition DaysInYear :: "int \<Rightarrow> int" where
  "DaysInYear y = (if y mod 4 \<noteq> 0 then 365 else if y mod 100 \<noteq> 0 then 366
                   else if y mod 400 \<noteq> 0 then 365 else 366)"

definition DayFromYear :: "int \<Rightarrow> int" where
  "DayFromYear y = 365 * (y - 1970) + (y - 1969) div 4 - (y - 1901) div 100 + (y - 1601) div 400"

definition TimeFromYear :: "int \<Rightarrow> int" where
  "TimeFromYear y = msPerDay * DayFromYear y"

definition YearFromTime :: "time_value \<Rightarrow> int" where
  "YearFromTime t =
     (let d = Day t; y = 1970 + (400 * d) div 146097
      in if DayFromYear (y + 1) \<le> d then y + 1 else if d < DayFromYear y then y - 1 else y)"

definition leap_days :: "int \<Rightarrow> int" where
  "leap_days y = (if DaysInYear y = 366 then 1 else 0)"

definition InLeapYear :: "time_value \<Rightarrow> int" where
  "InLeapYear t = leap_days (YearFromTime t)"

definition DayWithinYear :: "time_value \<Rightarrow> int" where
  "DayWithinYear t = Day t - DayFromYear (YearFromTime t)"

definition month_start :: "int \<Rightarrow> int \<Rightarrow> int" where
  "month_start l m =
     (if m = 0 then 0 else if m = 1 then 31 else if m = 2 then 59 + l else if m = 3 then 90 + l
      else if m = 4 then 120 + l else if m = 5 then 151 + l else if m = 6 then 181 + l
      else if m = 7 then 212 + l else if m = 8 then 243 + l else if m = 9 then 273 + l
      else if m = 10 then 304 + l else if m = 11 then 334 + l else 365 + l)"

definition MonthFromTime :: "time_value \<Rightarrow> int" where
  "MonthFromTime t =
     (let d = DayWithinYear t; l = InLeapYear t
      in if d < 31 then 0 else if d < 59 + l then 1 else if d < 90 + l then 2
         else if d < 120 + l then 3 else if d < 151 + l then 4 else if d < 181 + l then 5
         else if d < 212 + l then 6 else if d < 243 + l then 7 else if d < 273 + l then 8
         else if d < 304 + l then 9 else if d < 334 + l then 10 else 11)"

definition DateFromTime :: "time_value \<Rightarrow> int" where
  "DateFromTime t = DayWithinYear t - month_start (InLeapYear t) (MonthFromTime t) + 1"

definition MakeDay :: "int \<Rightarrow> int \<Rightarrow> int \<Rightarrow> int" where
  "MakeDay year month date =
     (let ym = year + month div 12; mn = month mod 12
      in DayFromYear ym + month_start (leap_days ym) mn + date - 1)"

definition DaysInMonth :: "int \<Rightarrow> int \<Rightarrow> int" where
  "DaysInMonth y m = month_start (leap_days y) (m + 1) - month_start (leap_days y) m"

text \<open>
  The local time zone of the process is the implementation-defined operation
  \<open>LocalTZA(t, isUTC)\<close>: the offset of local time from UTC in milliseconds, at the UTC
  instant \<open>t\<close> when \<open>isUTC\<close> holds and at the local time \<open>t\<close> otherwise. It is a
  parameter of every operation that reads or writes local-time fields.
\<close>

type_synonym LocalTZA = "int \<Rightarrow> bool \<Rightarrow> int"

definition LocalTime :: "LocalTZA \<Rightarrow> time_value \<Rightarrow> int" where
  "LocalTime tza t = t + tza t True"

definition UTC :: "LocalTZA \<Rightarrow> int \<Rightarrow> int" where
  "UTC tza t = t - tza t False"

definition getMinutes :: "LocalTZA \<Rightarrow> time_value \<Rightarrow> int" where
  "getMinutes tza t = MinFromTime (LocalTime tza t)"

definition setMinutes :: "LocalTZA \<Rightarrow> time_value \<Rightarrow> int \<Rightarrow> time_value option" where
  "setMinutes tza t minute =
     (let lt = LocalTime tza t;
          date = MakeDate (Day lt) (MakeTime (HourFromTime lt) minute (SecFromTime lt) (msFromTime lt))
      in TimeClip (UTC tza date))"

text \<open>A zone whose offset never changes (UTC is \<open>fixed_zone 0\<close>).\<close>

definition fixed_zone :: "int \<Rightarrow> LocalTZA" where
  "fixed_zone c = (\<lambda>t isUTC. c)"

text \<open>
  America/New_York during 2025: UTC-5, and UTC-4 from 2025-03-09T07:00:00Z until
  2025-11-02T06:00:00Z. For a local time the offset is the one of the earliest instant
  that shows it, and for a local time skipped by the spring transition the offset before
  the transition.
\<close>

definition new_york_2025 :: LocalTZA where
  "new_york_2025 = (\<lambda>t isUTC.
     if isUTC then (if 1741503600000 \<le> t \<and> t < 1762063200000 then - 14400000 else - 18000000)
     else (if 1741489200000 \<le> t \<and> t < 1762048800000 then - 14400000 else - 18000000))"

section \<open>Date strings\<close>

text \<open>
  \<open>Date.prototype.toISOString\<close> renders a valid time value in UTC as
  \<open>YYYY-MM-DDTHH:mm:ss.sssZ\<close>, with a signed six-digit year outside the years 0 to
  9999, and throws a RangeError for an invalid Date.
\<close>

datatype JsError = RangeError | SyntaxError

definition digit_char :: "nat \<Rightarrow> char" where
  "digit_char n = char_of (48 + n)"

fun pad :: "nat \<Rightarrow> nat \<Rightarrow> string" where
  "pad 0 n = []"
| "pad (Suc w) n = pad w (n div 10) @ [digit_char (n mod 10)]"

definition year_string :: "int \<Rightarrow> string" where
  "year_string y =
     (if 0 \<le> y \<and> y \<le> 9999 then pad 4 (nat y)
      else (if y < 0 then CHR ''-'' else CHR ''+'') # pad 6 (nat \<bar>y\<bar>))"

definition toISOString :: "time_value \<Rightarrow> JsError + string" where
  "toISOString t =
     (if \<not> valid_time t then Inl RangeError
      else Inr (year_string (YearFromTime t) @ ''-'' @ pad 2 (nat (MonthFromTime t + 1))
                @ ''-'' @ pad 2 (nat (DateFromTime t))
                @ ''T'' @ pad 2 (nat (HourFromTime t))
                @ '':'' @ pad 2 (nat (MinFromTime t))
                @ '':'' @ pad 2 (nat (SecFromTime t))
                @ ''.'' @ pad 3 (nat (msFromTime t)) @ ''Z''))"

text \<open>
  \<open>Date.parse\<close> on the complete form of the date-time string format with the UTC
  designator: a four-digit year or a signed six-digit year (\<open>-000000\<close> is not a year),
  two-digit month, day, hour, minute and second, three-digit milliseconds, \<open>Z\<close>. Field
  values outside the calendar give no time value. The other forms that \<open>Date.parse\<close>
  accepts (date only, no designator, numeric offsets) are outside this model: it gives
  \<open>None\<close> for them.
\<close>

definition is_digit :: "char \<Rightarrow> bool" where
  "is_digit c = (48 \<le> (of_char c :: nat) \<and> (of_char c :: nat) \<le> 57)"

definition digit_value :: "char \<Rightarrow> nat" where
  "digit_value c = of_char c - 48"

definition number_of_digits :: "string \<Rightarrow> nat option" where
  "number_of_digits s =
     (if list_all is_digit s then Some (foldl (\<lambda>a c. 10 * a + digit_value c) 0 s) else None)"

definition parse_year :: "string \<Rightarrow> (int \<times> string) option" where
  "parse_year s =
     (case s of
        [] \<Rightarrow> None
      | c # cs \<Rightarrow>
          if c = CHR ''+'' \<or> c = CHR ''-'' then
            (if length cs < 6 then None
             else case number_of_digits (take 6 cs) of
                    None \<Rightarrow> None
                  | Some v \<Rightarrow>
                      if c = CHR ''-'' \<and> v = 0 then None
                      else Some (if c = CHR ''-'' then - int v else int v, drop 6 cs))
          else
            (if length s < 4 then None
             else case number_of_digits (take 4 s) of
                    None \<Rightarrow> None
                  | Some v \<Rightarrow> Some (int v, drop 4 s)))"

definition digits_at :: "string \<Rightarrow> nat \<Rightarrow> nat \<Rightarrow> nat option" where
  "digits_at r i n = number_of_digits (take n (drop i r))"

definition legal_fields :: "int \<Rightarrow> nat \<Rightarrow> nat \<Rightarrow> nat \<Rightarrow> nat \<Rightarrow> nat \<Rightarrow> nat \<Rightarrow> bool" where
  "legal_fields y mo d h mi sec ms =
     (1 \<le> mo \<and> mo \<le> 12 \<and> 1 \<le> d \<and> int d \<le> DaysInMonth y (int mo - 1)
      \<and> (h \<le> 23 \<or> (h = 24 \<and> mi = 0 \<and> sec = 0 \<and> ms = 0)) \<and> mi \<le> 59 \<and> sec \<le> 59)"

definition Date_parse :: "string \<Rightarrow> time_value option" where
  "Date_parse s =
     (case parse_year s of
        None \<Rightarrow> None
      | Some (y, r) \<Rightarrow>
          if length r \<noteq> 20 \<or> [r ! 0, r ! 3, r ! 6, r ! 9, r ! 12, r ! 15, r ! 19] \<noteq> ''--T::.Z''
          then None
          else
            (case digits_at r 1 2 of None \<Rightarrow> None | Some mo \<Rightarrow>
             case digits_at r 4 2 of None \<Rightarrow> None | Some d \<Rightarrow>
             case digits_at r 7 2 of None \<Rightarrow> None | Some h \<Rightarrow>
             case digits_at r 10 2 of None \<Rightarrow> None | Some mi \<Rightarrow>
             case digits_at r 13 2 of None \<Rightarrow> None | Some sec \<Rightarrow>
             case digits_at r 16 3 of None \<Rightarrow> None | Some ms \<Rightarrow>
               if legal_fields y mo d h mi sec ms
               then TimeClip (MakeDate (MakeDay y (int mo - 1) (int d))
                                (MakeTime (int h) (int mi) (int sec) (int ms)))
               else None))"

section \<open>Token service: expiry\<close>

text \<open>
  \<open>calculateExpiryDate\<close> reads the clock (\<open>new Date()\<close>, here the argument \<open>now\<close>) and
  moves the local-time minutes field of that Date forward. The number of minutes is an
  integer: the controller passes on only what the validation has accepted.
\<close>

definition calculateExpiryDate :: "LocalTZA \<Rightarrow> time_value \<Rightarrow> int \<Rightarrow> time_value option" where
  "calculateExpiryDate tza now expiresInMinutes =
     setMinutes tza now (getMinutes tza now + expiresInMinutes)"

text \<open>\<open>isTokenExpired\<close> compares a fresh clock reading \<open>now\<close> with the expiry.\<close>

definition isTokenExpired :: "time_value \<Rightarrow> time_value \<Rightarrow> bool" where
  "isTokenExpired now expiresAt = (now > expiresAt)"

section \<open>API key gate\<close>

text \<open>
  \<open>validateApiKey\<close> reads the \<open>X-API-Key\<close> header of the request (\<open>None\<close> when the header
  is absent, as \<open>headers.get\<close> returns null) and the configured key
  \<open>process.env.API_KEY\<close>, \<open>None\<close> when the variable is unset.
  The test \<open>!expectedApiKey\<close> holds for an unset variable and for the empty string.
  Console output is not modelled.
\<close>

definition falsy :: "string option \<Rightarrow> bool" where
  "falsy v = (case v of None \<Rightarrow> True | Some s \<Rightarrow> s = [])"

definition validateApiKey :: "string option \<Rightarrow> string option \<Rightarrow> bool" where
  "validateApiKey expectedApiKey apiKey =
     (if falsy expectedApiKey then True else apiKey = expectedApiKey)"

section \<open>Token records and the store\<close>

text \<open>
  The \<open>Token\<close> interface, with the two Dates as time values (the field \<open>id\<close> is written
  \<open>id'\<close>, \<open>id\<close> being the identity function). The table \<open>tokens\<close> is the list of its
  rows in insertion order. The primary key \<open>id\<close> and the column \<open>createdAt\<close>
  are not supplied by the service: the store fills them in on insert (the column default
  \<open>CURRENT_TIMESTAMP\<close> of the migration), so the fresh id and the store's clock reading are
  parameters of \<open>create\<close>. The migration puts a unique index on \<open>token\<close> and makes \<open>id\<close> the
  primary key; a violation makes \<open>create\<close> throw.
\<close>

record Token =
  id' :: string
  token :: string
  userId :: string
  scopes :: "string list"
  createdAt :: time_value
  expiresAt :: time_value

type_synonym store = "Token list"

datatype PrismaError = UniqueConstraintViolation | InvalidDateArgument

definition prisma_token_create ::
  "store \<Rightarrow> string \<Rightarrow> time_value \<Rightarrow> string \<Rightarrow> string \<Rightarrow> string list \<Rightarrow> time_value option
     \<Rightarrow> PrismaError + (Token \<times> store)" where
  "prisma_token_create db fresh_id db_now tok uid scs expiry =
     (case expiry of
        None \<Rightarrow> Inl InvalidDateArgument
      | Some e \<Rightarrow>
          if list_ex (\<lambda>r. token r = tok \<or> id' r = fresh_id) db then Inl UniqueConstraintViolation
          else (let row = \<lparr>id' = fresh_id, token = tok, userId = uid, scopes = scs,
                            createdAt = db_now, expiresAt = e\<rparr>
                in Inr (row, db @ [row])))"

text \<open>
  \<open>findMany\<close> with \<open>where: {userId, expiresAt: {gt: now}}\<close> and
  \<open>orderBy: {createdAt: 'desc'}\<close>. The order among rows of equal \<open>createdAt\<close> is left to
  the store; the model keeps them in insertion order.
\<close>

definition prisma_token_findMany :: "store \<Rightarrow> string \<Rightarrow> time_value \<Rightarrow> Token list" where
  "prisma_token_findMany db uid now =
     sort_key (\<lambda>r. - createdAt r) (filter (\<lambda>r. userId r = uid \<and> expiresAt r > now) db)"

text \<open>\<open>deleteMany\<close> with \<open>where: {expiresAt: {lte: now}}\<close>: the count and the remaining rows.\<close>

definition prisma_token_deleteMany :: "store \<Rightarrow> time_value \<Rightarrow> nat \<times> store" where
  "prisma_token_deleteMany db now =
     (length (filter (\<lambda>r. expiresAt r \<le> now) db), filter (\<lambda>r. \<not> expiresAt r \<le> now) db)"

section \<open>Token service: create and list\<close>

text \<open>
  \<open>generateTokenString\<close> prefixes the identifier that \<open>randomUUID()\<close> returns; the
  identifier drawn is the argument.
\<close>

definition generateTokenString :: "string \<Rightarrow> string" where
  "generateTokenString uuid = ''token_'' @ uuid"

text \<open>
  \<open>createToken\<close>: the service draws an identifier, reads its own clock (\<open>now\<close>) for the
  expiry and hands the row to the store, which adds the id and its own \<open>createdAt\<close>.
  The store is passed in and returned.
\<close>

definition createToken ::
  "LocalTZA \<Rightarrow> string \<Rightarrow> time_value \<Rightarrow> string \<Rightarrow> time_value \<Rightarrow> store
     \<Rightarrow> string \<Rightarrow> string list \<Rightarrow> int \<Rightarrow> PrismaError + (Token \<times> store)" where
  "createToken tza uuid now fresh_id db_now db uid scs expiresInMinutes =
     (let tok = generateTokenString uuid;
          expiry = calculateExpiryDate tza now expiresInMinutes
      in prisma_token_create db fresh_id db_now tok uid scs expiry)"

text \<open>\<open>getActiveTokensForUser\<close> reads the clock, then queries; it returns the store as it was.\<close>

definition getActiveTokensForUser :: "time_value \<Rightarrow> store \<Rightarrow> string \<Rightarrow> Token list \<times> store" where
  "getActiveTokensForUser now db uid = (prisma_token_findMany db uid now, db)"

definition deleteExpiredTokens :: "time_value \<Rightarrow> store \<Rightarrow> nat \<times> store" where
  "deleteExpiredTokens now db = prisma_token_deleteMany db now"

text \<open>
  \<open>serializeToken\<close> copies \<open>id\<close>, \<open>token\<close>, \<open>userId\<close> and \<open>scopes\<close> and renders the two
  Dates with \<open>toISOString\<close>, \<open>createdAt\<close> first; a RangeError of either call is the
  result. \<open>serializeTokens\<close> is \<open>tokens.map(serializeToken)\<close>.
\<close>

datatype TokenResponse =
  TokenResponse (res_id: string) (res_token: string) (res_userId: string)
    (res_scopes: "string list") (res_createdAt: string) (res_expiresAt: string)

definition serializeToken :: "Token \<Rightarrow> JsError + TokenResponse" where
  "serializeToken tok =
     (case toISOString (createdAt tok) of
        Inl e \<Rightarrow> Inl e
      | Inr c \<Rightarrow>
          (case toISOString (expiresAt tok) of
             Inl e \<Rightarrow> Inl e
           | Inr x \<Rightarrow> Inr (TokenResponse (id' tok) (token tok) (userId tok) (scopes tok) c x)))"

fun serializeTokens :: "Token list \<Rightarrow> JsError + TokenResponse list" where
  "serializeTokens [] = Inr []"
| "serializeTokens (tok # toks) =
     (case serializeToken tok of
        Inl e \<Rightarrow> Inl e
      | Inr r \<Rightarrow> (case serializeTokens toks of Inl e \<Rightarrow> Inl e | Inr rs \<Rightarrow> Inr (r # rs)))"

section \<open>Request validation\<close>

text \<open>
  A request body, once \<open>request.json()\<close> has parsed it, is a JSON value; an object is the
  list of its properties, each name once, and \<open>map_of\<close> looks a property up. A JSON number is a rational
  (every finite JavaScript number is one).

  The schemas are zod schemas. A schema applied to a value (\<open>None\<close> for a missing property)
  gives the parsed value or the list of issues; an issue has the zod issue code, the path
  of the offending value and the message where the schema sets one. \<open>z.string().min(1)\<close>
  wants a string of length at least 1; \<open>z.array(e).min(1)\<close> an array of at least one
  element, each accepted by \<open>e\<close>; \<open>z.number().int().positive().max(525600)\<close> a number that
  passes all three checks; \<open>z.object\<close> an object whose listed properties are accepted,
  other properties being dropped. \<open>parse\<close> throws a ZodError holding the issues when
  there is one.
\<close>

datatype json = JNull | JBool bool | JNumber rat | JString string | JArray "json list"
  | JObject "(string \<times> json) list"

datatype path_elem = Key string | Index nat

datatype issue_code = invalid_type | too_small | too_big

record ZodIssue =
  code :: issue_code
  path :: "path_elem list"
  message :: "string option"

datatype CreateTokenInput =
  CreateTokenInput (input_userId: string) (input_scopes: "string list") (input_expiresInMinutes: int)

definition issues_of :: "ZodIssue list + 'a \<Rightarrow> ZodIssue list" where
  "issues_of r = (case r of Inl is \<Rightarrow> is | Inr _ \<Rightarrow> [])"

definition values_of :: "(ZodIssue list + 'a) list \<Rightarrow> 'a list" where
  "values_of rs = concat (map (\<lambda>r. case r of Inl _ \<Rightarrow> [] | Inr v \<Rightarrow> [v]) rs)"

definition success :: "'e + 'a \<Rightarrow> bool" where
  "success r = (\<not> isl r)"

definition z_string_min1 :: "string \<Rightarrow> path_elem list \<Rightarrow> json option \<Rightarrow> ZodIssue list + string" where
  "z_string_min1 msg p v =
     (case v of
        Some (JString s) \<Rightarrow>
          if length s < 1 then Inl [\<lparr>code = too_small, path = p, message = Some msg\<rparr>] else Inr s
      | _ \<Rightarrow> Inl [\<lparr>code = invalid_type, path = p, message = None\<rparr>])"

definition userId_schema :: "path_elem list \<Rightarrow> json option \<Rightarrow> ZodIssue list + string" where
  "userId_schema = z_string_min1 ''userId must not be empty''"

definition scopes_schema :: "path_elem list \<Rightarrow> json option \<Rightarrow> ZodIssue list + string list" where
  "scopes_schema p v =
     (case v of
        Some (JArray xs) \<Rightarrow>
          (let rs = map (\<lambda>(i, x). z_string_min1 ''Each scope must be a non-empty string''
                                   (p @ [Index i]) (Some x)) (enumerate 0 xs);
               is = (if length xs < 1
                     then [\<lparr>code = too_small, path = p, message = Some ''At least one scope is required''\<rparr>]
                     else []) @ concat (map issues_of rs)
           in if is = [] then Inr (values_of rs) else Inl is)
      | _ \<Rightarrow> Inl [\<lparr>code = invalid_type, path = p, message = None\<rparr>])"

definition isInteger :: "rat \<Rightarrow> bool" where
  "isInteger q = (of_int \<lfloor>q\<rfloor> = q)"

definition expiresInMinutes_schema :: "path_elem list \<Rightarrow> json option \<Rightarrow> ZodIssue list + int" where
  "expiresInMinutes_schema p v =
     (case v of
        Some (JNumber q) \<Rightarrow>
          (let is = (if \<not> isInteger q
                     then [\<lparr>code = invalid_type, path = p, message = Some ''expiresInMinutes must be an integer''\<rparr>]
                     else [])
                  @ (if q \<le> 0
                     then [\<lparr>code = too_small, path = p, message = Some ''expiresInMinutes must be positive''\<rparr>]
                     else [])
                  @ (if q > 525600
                     then [\<lparr>code = too_big, path = p,
                            message = Some ''expiresInMinutes cannot exceed 1 year (525600 minutes)''\<rparr>]
                     else [])
           in if is = [] then Inr \<lfloor>q\<rfloor> else Inl is)
      | _ \<Rightarrow> Inl [\<lparr>code = invalid_type, path = p, message = None\<rparr>])"

definition createTokenSchema_parse :: "json \<Rightarrow> ZodIssue list + CreateTokenInput" where
  "createTokenSchema_parse body =
     (case body of
        JObject kvs \<Rightarrow>
          (let u = userId_schema [Key ''userId''] (map_of kvs ''userId'');
               s = scopes_schema [Key ''scopes''] (map_of kvs ''scopes'');
               n = expiresInMinutes_schema [Key ''expiresInMinutes''] (map_of kvs ''expiresInMinutes'')
           in case (u, s, n) of
                (Inr u', Inr s', Inr n') \<Rightarrow> Inr (CreateTokenInput u' s' n')
              | _ \<Rightarrow> Inl (issues_of u @ issues_of s @ issues_of n))
      | _ \<Rightarrow> Inl [\<lparr>code = invalid_type, path = [], message = None\<rparr>])"

text \<open>
  \<open>getTokensSchema\<close> is applied to \<open>{userId: searchParams.get('userId')}\<close>, whose property
  is a string or, for a missing query parameter, null.
\<close>

definition getTokensSchema_parse :: "string option \<Rightarrow> ZodIssue list + string" where
  "getTokensSchema_parse q =
     userId_schema [Key ''userId''] (Some (case q of None \<Rightarrow> JNull | Some s \<Rightarrow> JString s))"

text \<open>The body \<open>{userId, scopes, expiresInMinutes}\<close> of a create request.\<close>

definition create_request :: "string \<Rightarrow> string list \<Rightarrow> rat \<Rightarrow> json" where
  "create_request u scs q =
     JObject [(''userId'', JString u), (''scopes'', JArray (map JString scs)),
              (''expiresInMinutes'', JNumber q)]"

section \<open>Controllers\<close>

text \<open>
  Of a request the controllers read the \<open>X-API-Key\<close> header (\<open>None\<close> when absent), the
  body through \<open>request.json()\<close>, which rejects with a SyntaxError when the body is not
  JSON (\<open>json_body = None\<close>), and the query parameter \<open>userId\<close>. The process is described
  by its configured key and its time zone; what a call draws from the outside (the random
  identifier, the service's clock, the id and the clock of the store) is passed in.
  A controller returns the response and the store. Every exception that is not a ZodError
  ends in the last branch of the \<open>catch\<close>.
\<close>

record NextRequest =
  header_X_API_Key :: "string option"
  json_body :: "json option"
  searchParam_userId :: "string option"

record process_env =
  API_KEY :: "string option"
  time_zone :: LocalTZA

record drawn =
  random_uuid :: string
  service_clock :: time_value
  store_id :: string
  store_clock :: time_value

datatype response_body =
    ErrorResponse string "ZodIssue list option"
  | TokenBody TokenResponse
  | TokenListBody "TokenResponse list"

datatype NextResponse = NextResponse (payload: response_body) (status: nat)

definition request_json :: "NextRequest \<Rightarrow> JsError + json" where
  "request_json req = (case json_body req of None \<Rightarrow> Inl SyntaxError | Some j \<Rightarrow> Inr j)"

definition unauthorized :: NextResponse where
  "unauthorized = NextResponse (ErrorResponse ''Unauthorized. Valid X-API-Key header required.'' None) 401"

definition validation_failed :: "ZodIssue list \<Rightarrow> NextResponse" where
  "validation_failed issues = NextResponse (ErrorResponse ''Validation failed'' (Some issues)) 400"

definition internal_error :: NextResponse where
  "internal_error = NextResponse (ErrorResponse ''Internal server error'' None) 500"

definition createTokenController ::
  "process_env \<Rightarrow> drawn \<Rightarrow> store \<Rightarrow> NextRequest \<Rightarrow> NextResponse \<times> store" where
  "createTokenController env dr db req =
     (if \<not> validateApiKey (API_KEY env) (header_X_API_Key req) then (unauthorized, db)
      else case request_json req of
        Inl _ \<Rightarrow> (internal_error, db)
      | Inr b \<Rightarrow>
          (case createTokenSchema_parse b of
             Inl issues \<Rightarrow> (validation_failed issues, db)
           | Inr validatedData \<Rightarrow>
               (case createToken (time_zone env) (random_uuid dr) (service_clock dr) (store_id dr)
                       (store_clock dr) db (input_userId validatedData)
                       (input_scopes validatedData) (input_expiresInMinutes validatedData) of
                  Inl _ \<Rightarrow> (internal_error, db)
                | Inr (tok, db') \<Rightarrow>
                    (case serializeToken tok of
                       Inl _ \<Rightarrow> (internal_error, db')
                     | Inr res \<Rightarrow> (NextResponse (TokenBody res) 201, db')))))"

definition getTokensController ::
  "process_env \<Rightarrow> drawn \<Rightarrow> store \<Rightarrow> NextRequest \<Rightarrow> NextResponse \<times> store" where
  "getTokensController env dr db req =
     (if \<not> validateApiKey (API_KEY env) (header_X_API_Key req) then (unauthorized, db)
      else case getTokensSchema_parse (searchParam_userId req) of
        Inl issues \<Rightarrow> (validation_failed issues, db)
      | Inr uid \<Rightarrow>
          (case getActiveTokensForUser (service_clock dr) db uid of
             (tokens, db') \<Rightarrow>
               (case serializeTokens tokens of
                  Inl _ \<Rightarrow> (internal_error, db')
                | Inr rs \<Rightarrow> (NextResponse (TokenListBody rs) 200, db'))))"

section \<open>Sample data\<close>

text \<open>
  A small table used to run the operations on concrete input: three tokens of
  \<open>alice\<close>, one of them expired at time 1000, and one token of \<open>bob\<close>.
\<close>

definition sample_token :: "string \<Rightarrow> string \<Rightarrow> time_value \<Rightarrow> time_value \<Rightarrow> Token" where
  "sample_token n uid c e =
     \<lparr>id' = n, token = ''token_'' @ n, userId = uid, scopes = [''read''], createdAt = c, expiresAt = e\<rparr>"

definition sample_store :: store where
  "sample_store =
     [sample_token ''t1'' ''alice'' 100 5000, sample_token ''t2'' ''alice'' 200 900,
      sample_token ''t3'' ''bob'' 250 7000, sample_token ''t4'' ''alice'' 300 6000]"

text \<open>The token of the serialization tests of the repository.\<close>

definition test_token :: Token where
  "test_token = \<lparr>id' = ''test_id'', token = ''token_abc123'', userId = ''user123'',
     scopes = [''read'', ''write''], createdAt = 1735725600000, expiresAt = 1735729200000\<rparr>"

text \<open>
  A process with the key \<open>secret\<close> configured, running under UTC, and what one call
  draws: an identifier, the service's clock at 2025-12-01T10:00:00.000Z and the store's
  clock five milliseconds later.
\<close>

definition sample_env :: process_env where
  "sample_env = \<lparr>API_KEY = Some ''secret'', time_zone = fixed_zone 0\<rparr>"

definition sample_drawn :: drawn where
  "sample_drawn = \<lparr>random_uuid = ''0b0e7a52-7c1f-4c6e-9d57-3f1f5e2a9c10'',
     service_clock = 1764583200000, store_id = ''id1'', store_clock = 1764583200005\<rparr>"

text \<open>The record that this call creates for \<open>user123\<close> with 60 minutes.\<close>

definition sample_created :: Token where
  "sample_created = \<lparr>id' = ''id1'', token = ''token_0b0e7a52-7c1f-4c6e-9d57-3f1f5e2a9c10'',
     userId = ''user123'', scopes = [''read'', ''write''],
     createdAt = 1764583200005, expiresAt = 1764586800000\<rparr>"

section \<open>Properties of the expiry calculation\<close>

lemma time_fields_recompose:
  "Day t * msPerDay + HourFromTime t * msPerHour + MinFromTime t * msPerMinute
     + SecFromTime t * msPerSecond + msFromTime t = t"
proof -
  define a where "a = t div 1000"
  define b where "b = a div 60"
  define c where "c = b div 60"
  have b_eq: "t div 60000 = b"
    using zdiv_zmult2_eq [of 60 t 1000] by (simp add: a_def b_def)
  have c_eq: "t div 3600000 = c"
    using zdiv_zmult2_eq [of 60 "t div 1000" 60] zdiv_zmult2_eq [of 3600 t 1000]
    by (simp add: a_def b_def c_def)
  have d_eq: "t div 86400000 = c div 24"
    using zdiv_zmult2_eq [of 24 t 3600000] by (simp add: c_eq)
  have "t = a * 1000 + t mod 1000" by (simp add: a_def)
  moreover have "a = b * 60 + a mod 60" by (simp add: b_def)
  moreover have "b = c * 60 + b mod 60" by (simp add: c_def)
  moreover have "c = c div 24 * 24 + c mod 24" by simp
  ultimately have "c div 24 * 86400000 + c mod 24 * 3600000 + b mod 60 * 60000
      + a mod 60 * 1000 + t mod 1000 = t"
    by linarith
  then show ?thesis
    by (simp add: Day_def HourFromTime_def MinFromTime_def SecFromTime_def msFromTime_def
        msPerDay_def msPerHour_def msPerMinute_def msPerSecond_def b_eq c_eq d_eq a_def)
qed

lemma setMinutes_local:
  "setMinutes tza t (getMinutes tza t + m) =
     TimeClip (UTC tza (LocalTime tza t + m * msPerMinute))"
proof -
  have "MakeDate (Day lt) (MakeTime (HourFromTime lt) (MinFromTime lt + m) (SecFromTime lt) (msFromTime lt))
          = lt + m * msPerMinute" for lt
    using time_fields_recompose [of lt]
    by (simp add: MakeDate_def MakeTime_def algebra_simps)
  then show ?thesis
    by (simp add: setMinutes_def getMinutes_def Let_def)
qed

lemma calculateExpiryDate_fixed_zone:
  "calculateExpiryDate (fixed_zone c) now m = TimeClip (now + m * msPerMinute)"
  by (simp add: calculateExpiryDate_def setMinutes_local UTC_def LocalTime_def fixed_zone_def)

text \<open>
  In a zone with a fixed offset the expiry is the clock reading plus the minutes, later
  than the clock reading for a positive number of minutes.
\<close>

lemma calculateExpiryDate_fixed_zone_later:
  assumes "0 < m" and "valid_time (now + m * msPerMinute)"
  shows "\<exists>e. calculateExpiryDate (fixed_zone c) now m = Some e \<and> now < e \<and> e = now + m * msPerMinute"
  using assms by (simp add: calculateExpiryDate_fixed_zone TimeClip_def valid_time_def msPerMinute_def)

text \<open>
  C4 says that the expiry is the clock reading advanced by exactly the given minutes, and
  so later than the clock reading. The code moves the minutes field of the local time,
  and in a zone with daylight saving time that is a different instant: in
  America/New_York, at 2025-11-02T06:30:00Z (01:30 local time, after the clocks went
  back), a lifetime of 10 minutes sets the local time to 01:40, which is read as the first
  01:40 of that night, 05:40:00Z: fifty minutes before the clock reading and not ten
  minutes after it.
\<close>

theorem calculateExpiryDate_new_york_autumn:
  "calculateExpiryDate new_york_2025 1762065000000 10 = Some 1762062000000
   \<and> calculateExpiryDate new_york_2025 1762065000000 10 \<noteq> Some (1762065000000 + 10 * msPerMinute)
   \<and> (1762062000000 :: time_value) < 1762065000000"
  by code_simp

text \<open>
  At 2025-03-09T06:30:00Z (01:30 local time, before the clocks go forward) a lifetime
  of 120 minutes gives 07:30:00Z, sixty minutes after the clock reading.
\<close>

lemma calculateExpiryDate_new_york_spring:
  "calculateExpiryDate new_york_2025 1741501800000 120 = Some 1741505400000"
  by code_simp

section \<open>Properties of the calendar\<close>

text \<open>
  Integer division by a positive number: the quotient of the successor, and the bounds
  that the quotient obeys.
\<close>

lemma div_step:
  fixes a n :: int
  assumes "0 < n"
  shows "(a + 1) div n = a div n + (if n dvd a + 1 then 1 else 0)"
proof (cases "n dvd a + 1")
  case True
  then obtain k where k: "a + 1 = n * k" ..
  have "a = n * (k - 1) + (n - 1)"
    using k by (simp add: algebra_simps)
  then have "a div n = k - 1"
    by (rule int_div_pos_eq) (use assms in simp_all)
  moreover have "(a + 1) div n = k"
    using k assms by simp
  ultimately show ?thesis using True by simp
next
  case False
  define r where "r = a mod n"
  have r: "0 \<le> r" "r < n" using assms by (simp_all add: r_def)
  have a: "a + 1 = n * (a div n) + (r + 1)" by (simp add: r_def)
  have "r + 1 \<noteq> n"
  proof
    assume "r + 1 = n"
    with a have "a + 1 = n * (a div n + 1)" by (simp add: algebra_simps)
    then have "n dvd a + 1" by (rule dvdI)
    with False show False ..
  qed
  with r have "r + 1 < n" by simp
  with int_div_pos_eq [OF a] r have "(a + 1) div n = a div n"
    by simp
  with False show ?thesis by simp
qed

lemma div_bounds:
  fixes a n :: int
  assumes "0 < n"
  shows "n * (a div n) \<le> a" and "a < n * (a div n) + n"
  using assms mult_div_mod_eq [of n a] pos_mod_sign [of n a] pos_mod_bound [of n a]
  by linarith+

text \<open>A year begins \<open>DaysInYear\<close> days after the year before it.\<close>

lemma DayFromYear_Suc: "DayFromYear (y + 1) = DayFromYear y + DaysInYear y"
proof -
  have d4: "4 dvd y - 1969 + 1 \<longleftrightarrow> 4 dvd y"
    using dvd_diff_left_iff [of 4 1968 y] by simp
  have d100: "100 dvd y - 1901 + 1 \<longleftrightarrow> 100 dvd y"
    using dvd_diff_left_iff [of 100 1900 y] by simp
  have d400: "400 dvd y - 1601 + 1 \<longleftrightarrow> 400 dvd y"
    using dvd_diff_left_iff [of 400 1600 y] by simp
  have s4: "(y + 1 - 1969) div 4 = (y - 1969) div 4 + (if 4 dvd y then 1 else 0)"
    using div_step [of 4 "y - 1969"] d4 by (simp add: algebra_simps)
  have s100: "(y + 1 - 1901) div 100 = (y - 1901) div 100 + (if 100 dvd y then 1 else 0)"
    using div_step [of 100 "y - 1901"] d100 by (simp add: algebra_simps)
  have s400: "(y + 1 - 1601) div 400 = (y - 1601) div 400 + (if 400 dvd y then 1 else 0)"
    using div_step [of 400 "y - 1601"] d400 by (simp add: algebra_simps)
  have i1: "100 dvd y \<Longrightarrow> 4 dvd y" by (rule dvd_trans [of 4 100]) simp_all
  have i2: "400 dvd y \<Longrightarrow> 100 dvd y" by (rule dvd_trans [of 100 400]) simp_all
  show ?thesis
    unfolding DayFromYear_def DaysInYear_def s4 s100 s400
    using i1 i2 by (auto simp: mod_eq_0_iff_dvd)
qed

text \<open>
  The year estimated from the mean year length is at most one year off: the day lies
  between the start of the year before the estimate and the start of the second year
  after it. So the year that \<open>YearFromTime\<close> picks begins on or before the day and the next
  year begins after it.
\<close>

lemma estimate_below:
  fixes q a b c d :: int
  assumes "146097 * q \<le> 400 * d" "4 * a \<le> q" "q + 68 < 100 * b + 100" "400 * c \<le> q + 368"
  shows "365 * (q - 1) + a - b + c \<le> d"
proof -
  have "365 * (q - 1) = 365 * q - 365" by simp
  with assms show ?thesis by linarith
qed

lemma estimate_above:
  fixes q a b c d :: int
  assumes "400 * d < 146097 * q + 146097" "q + 3 < 4 * a + 4" "100 * b \<le> q + 71"
    "q + 371 < 400 * c + 400"
  shows "d < 365 * (q + 2) + a - b + c"
proof -
  have "365 * (q + 2) = 365 * q + 730" by simp
  with assms show ?thesis by linarith
qed

lemma DayFromYear_estimate:
  assumes "y = 1970 + (400 * d) div 146097"
  shows "DayFromYear (y - 1) \<le> d" and "d < DayFromYear (y + 2)"
proof -
  define q where "q = (400 * d) div 146097"
  have y: "y = 1970 + q" using assms by (simp add: q_def)
  have q: "146097 * q \<le> 400 * d" "400 * d < 146097 * q + 146097"
    unfolding q_def by (rule div_bounds, simp)+
  have lo: "DayFromYear (y - 1) = 365 * (q - 1) + q div 4 - (q + 68) div 100 + (q + 368) div 400"
    by (simp add: DayFromYear_def y add.commute)
  have "4 * (q div 4) \<le> q" "q + 68 < 100 * ((q + 68) div 100) + 100"
    "400 * ((q + 368) div 400) \<le> q + 368"
    by (rule div_bounds, simp)+
  with q(1) show "DayFromYear (y - 1) \<le> d"
    unfolding lo by (rule estimate_below)
  have hi: "DayFromYear (y + 2) = 365 * (q + 2) + (q + 3) div 4 - (q + 71) div 100 + (q + 371) div 400"
    by (simp add: DayFromYear_def y add.commute)
  have "q + 3 < 4 * ((q + 3) div 4) + 4" "100 * ((q + 71) div 100) \<le> q + 71"
    "q + 371 < 400 * ((q + 371) div 400) + 400"
    by (rule div_bounds, simp)+
  with q(2) show "d < DayFromYear (y + 2)"
    unfolding hi by (rule estimate_above)
qed

lemma YearFromTime_bracket:
  shows "DayFromYear (YearFromTime t) \<le> Day t" and "Day t < DayFromYear (YearFromTime t + 1)"
proof -
  define y where "y = 1970 + (400 * Day t) div 146097"
  note e = DayFromYear_estimate [OF y_def]
  have yt: "YearFromTime t =
      (if DayFromYear (y + 1) \<le> Day t then y + 1 else if Day t < DayFromYear y then y - 1 else y)"
    unfolding YearFromTime_def Let_def y_def ..
  have m: "DayFromYear (y - 1 + 1) = DayFromYear y" by simp
  have p: "DayFromYear (y + 1 + 1) = DayFromYear (y + 2)" by (simp add: add.assoc)
  show "DayFromYear (YearFromTime t) \<le> Day t"
    unfolding yt using e(1) by simp
  show "Day t < DayFromYear (YearFromTime t + 1)"
    unfolding yt using e(2) m p by (simp split: if_splits)
qed

lemma DayFromYear_mono: "y \<le> z \<Longrightarrow> DayFromYear y \<le> DayFromYear z"
proof -
  have "DayFromYear y \<le> DayFromYear (y + int n)" for n
  proof (induction n)
    case 0
    then show ?case by simp
  next
    case (Suc n)
    have "DayFromYear (y + int (Suc n)) = DayFromYear (y + int n) + DaysInYear (y + int n)"
      using DayFromYear_Suc [of "y + int n"] by (simp add: ac_simps)
    moreover have "0 \<le> DaysInYear (y + int n)" by (simp add: DaysInYear_def)
    ultimately show ?case using Suc by linarith
  qed
  from this [of "nat (z - y)"] show "y \<le> z \<Longrightarrow> DayFromYear y \<le> DayFromYear z" by simp
qed

lemma TimeFromYear_le_iff: "TimeFromYear y \<le> t \<longleftrightarrow> DayFromYear y \<le> Day t"
proof
  assume "TimeFromYear y \<le> t"
  then have "(86400000 * DayFromYear y) div 86400000 \<le> t div 86400000"
    unfolding TimeFromYear_def msPerDay_def by (rule zdiv_mono1) simp
  then show "DayFromYear y \<le> Day t" by (simp add: Day_def msPerDay_def)
next
  assume "DayFromYear y \<le> Day t"
  then have "86400000 * DayFromYear y \<le> 86400000 * (t div 86400000)"
    by (simp add: Day_def msPerDay_def)
  also have "\<dots> \<le> t" by (rule div_bounds) simp
  finally show "TimeFromYear y \<le> t" by (simp add: TimeFromYear_def msPerDay_def)
qed

lemma YearFromTime_largest:
  shows "TimeFromYear (YearFromTime t) \<le> t"
    and "TimeFromYear y \<le> t \<Longrightarrow> y \<le> YearFromTime t"
proof -
  show "TimeFromYear (YearFromTime t) \<le> t"
    using YearFromTime_bracket(1) [of t] by (simp add: TimeFromYear_le_iff)
  assume "TimeFromYear y \<le> t"
  then have y: "DayFromYear y \<le> Day t" by (simp add: TimeFromYear_le_iff)
  show "y \<le> YearFromTime t"
  proof (rule ccontr)
    assume "\<not> y \<le> YearFromTime t"
    then have "YearFromTime t + 1 \<le> y" by simp
    from DayFromYear_mono [OF this] y YearFromTime_bracket(2) [of t] show False by linarith
  qed
qed

text \<open>A valid time value lies within a hundred million days of the epoch, in the years
  -271821 to 275760.\<close>

lemma Day_range:
  assumes "valid_time t"
  shows "- 100000000 \<le> Day t" and "Day t \<le> 100000000"
proof -
  have "- 8640000000000000 \<le> t" "t \<le> 8640000000000000"
    using assms by (simp_all add: valid_time_def abs_le_iff)
  then have "(- 8640000000000000) div 86400000 \<le> t div 86400000"
    "t div 86400000 \<le> 8640000000000000 div 86400000"
    using zdiv_mono1 [of "- 8640000000000000" t 86400000]
      zdiv_mono1 [of t 8640000000000000 86400000] by simp_all
  then show "- 100000000 \<le> Day t" and "Day t \<le> 100000000"
    by (simp_all add: Day_def msPerDay_def)
qed

lemma YearFromTime_range:
  assumes "valid_time t"
  shows "- 271821 \<le> YearFromTime t" and "YearFromTime t \<le> 275760"
proof -
  note d = Day_range [OF assms]
  have lo: "DayFromYear (- 271821) \<le> - 100000000" by (simp add: DayFromYear_def)
  have hi: "100000000 < DayFromYear 275761" by (simp add: DayFromYear_def)
  show "- 271821 \<le> YearFromTime t"
  proof (rule ccontr)
    assume "\<not> - 271821 \<le> YearFromTime t"
    then have "YearFromTime t + 1 \<le> - 271821" by simp
    from DayFromYear_mono [OF this] lo YearFromTime_bracket(2) [of t] d show False by linarith
  qed
  show "YearFromTime t \<le> 275760"
  proof (rule ccontr)
    assume "\<not> YearFromTime t \<le> 275760"
    then have "275761 \<le> YearFromTime t" by simp
    from DayFromYear_mono [OF this] hi YearFromTime_bracket(1) [of t] d show False by linarith
  qed
qed

text \<open>Day within the year, month and day of the month are within the calendar, and
  \<open>MakeDay\<close> puts them together again.\<close>

lemma leap_days_cases: "leap_days y = 0 \<or> leap_days y = 1"
  by (simp add: leap_days_def)

lemma DaysInYear_leap: "DaysInYear y = 365 + leap_days y"
  by (simp add: leap_days_def DaysInYear_def)

lemma DayWithinYear_range:
  shows "0 \<le> DayWithinYear t" and "DayWithinYear t < 365 + InLeapYear t"
  using YearFromTime_bracket [of t] DayFromYear_Suc [of "YearFromTime t"]
  by (simp_all add: DayWithinYear_def InLeapYear_def DaysInYear_leap)

lemma MonthFromTime_range:
  shows "0 \<le> MonthFromTime t" and "MonthFromTime t \<le> 11"
    and "month_start (InLeapYear t) (MonthFromTime t) \<le> DayWithinYear t"
    and "DayWithinYear t < month_start (InLeapYear t) (MonthFromTime t + 1)"
  using DayWithinYear_range [of t] leap_days_cases [of "YearFromTime t"]
  unfolding MonthFromTime_def Let_def InLeapYear_def month_start_def
  by auto

lemma DateFromTime_range:
  shows "1 \<le> DateFromTime t"
    and "DateFromTime t \<le> DaysInMonth (YearFromTime t) (MonthFromTime t)"
  using MonthFromTime_range(3,4) [of t]
  by (simp_all add: DateFromTime_def DaysInMonth_def InLeapYear_def)

lemma DaysInMonth_le_31: "0 \<le> m \<Longrightarrow> m \<le> 11 \<Longrightarrow> DaysInMonth y m \<le> 31"
  using leap_days_cases [of y] by (auto simp: DaysInMonth_def month_start_def)

lemma MakeDay_fields:
  "MakeDay (YearFromTime t) (MonthFromTime t) (DateFromTime t) = Day t"
proof -
  have "MonthFromTime t div 12 = 0" "MonthFromTime t mod 12 = MonthFromTime t"
    using MonthFromTime_range(1,2) [of t] by simp_all
  then show ?thesis
    by (simp add: MakeDay_def DateFromTime_def DayWithinYear_def InLeapYear_def)
qed

text \<open>
  \<open>MakeDay(year, month, date)\<close> is specified through a time value \<open>t\<close> with
  \<open>YearFromTime(t) = year\<close>, \<open>MonthFromTime(t) = month\<close> and \<open>DateFromTime(t) = 1\<close>, as
  \<open>Day(t) + date - 1\<close>. The definition above meets that specification.
\<close>

lemma YearFromTime_unique:
  assumes "DayFromYear y \<le> Day t" and "Day t < DayFromYear (y + 1)"
  shows "YearFromTime t = y"
proof (rule ccontr)
  assume "YearFromTime t \<noteq> y"
  then consider "YearFromTime t + 1 \<le> y" | "y + 1 \<le> YearFromTime t" by linarith
  then show False
  proof cases
    case 1
    from DayFromYear_mono [OF this] assms(1) YearFromTime_bracket(2) [of t] show False by linarith
  next
    case 2
    from DayFromYear_mono [OF this] assms(2) YearFromTime_bracket(1) [of t] show False by linarith
  qed
qed

lemma month_start_table:
  assumes "0 \<le> m" and "m \<le> 11" and "l = 0 \<or> l = 1"
  shows "0 \<le> month_start l m" and "month_start l m < 365 + l"
    and "(let d = month_start l m
      in if d < 31 then 0 else if d < 59 + l then 1 else if d < 90 + l then 2
         else if d < 120 + l then 3 else if d < 151 + l then 4 else if d < 181 + l then 5
         else if d < 212 + l then 6 else if d < 243 + l then 7 else if d < 273 + l then 8
         else if d < 304 + l then 9 else if d < 334 + l then 10 else 11) = m"
proof -
  from assms(1,2) have "m = 0 \<or> m = 1 \<or> m = 2 \<or> m = 3 \<or> m = 4 \<or> m = 5 \<or> m = 6 \<or> m = 7
      \<or> m = 8 \<or> m = 9 \<or> m = 10 \<or> m = 11"
    by arith
  then have m: "m \<in> {0, 1, 2, 3, 4, 5, 6, 7, 8, 9, 10, 11}" by blast
  from m assms(3) show "0 \<le> month_start l m" by (auto simp: month_start_def)
  from m assms(3) show "month_start l m < 365 + l" by (auto simp: month_start_def)
  from m assms(3) show "(let d = month_start l m
      in if d < 31 then 0 else if d < 59 + l then 1 else if d < 90 + l then 2
         else if d < 120 + l then 3 else if d < 151 + l then 4 else if d < 181 + l then 5
         else if d < 212 + l then 6 else if d < 243 + l then 7 else if d < 273 + l then 8
         else if d < 304 + l then 9 else if d < 334 + l then 10 else 11) = m"
    by (auto simp: month_start_def)
qed

lemma MakeDay_first_of_month:
  assumes "0 \<le> m" and "m \<le> 11"
  shows "YearFromTime (msPerDay * MakeDay y m 1) = y"
    and "MonthFromTime (msPerDay * MakeDay y m 1) = m"
    and "DateFromTime (msPerDay * MakeDay y m 1) = 1"
    and "MakeDay y m dt = Day (msPerDay * MakeDay y m 1) + dt - 1"
proof -
  define t where "t = msPerDay * MakeDay y m 1"
  have md: "m div 12 = 0" "m mod 12 = m" using assms by simp_all
  have mk: "MakeDay y m dt = DayFromYear y + month_start (leap_days y) m + dt - 1" for dt
    by (simp add: MakeDay_def md)
  have day: "Day t = DayFromYear y + month_start (leap_days y) m"
    by (simp add: t_def Day_def msPerDay_def mk)
  note tab = month_start_table [OF assms leap_days_cases [of y]]
  have yr: "YearFromTime t = y"
    using tab(1,2) DayFromYear_Suc [of y]
    by (intro YearFromTime_unique) (simp_all add: day DaysInYear_leap)
  have dwy: "DayWithinYear t = month_start (leap_days y) m"
    by (simp add: DayWithinYear_def yr day)
  have mo: "MonthFromTime t = m"
    using tab(3) by (simp add: MonthFromTime_def dwy InLeapYear_def yr Let_def)
  show "YearFromTime (msPerDay * MakeDay y m 1) = y" using yr by (simp add: t_def)
  show "MonthFromTime (msPerDay * MakeDay y m 1) = m" using mo by (simp add: t_def)
  show "DateFromTime (msPerDay * MakeDay y m 1) = 1"
    using mo dwy yr by (simp add: DateFromTime_def InLeapYear_def t_def)
  show "MakeDay y m dt = Day (msPerDay * MakeDay y m 1) + dt - 1"
    using day by (simp add: mk t_def)
qed

section \<open>Properties of date strings\<close>

text \<open>A number below \<open>10 ^ w\<close> padded to \<open>w\<close> digits reads back as the number.\<close>

lemma digit_value_digit_char: "k < 10 \<Longrightarrow> digit_value (digit_char k) = k"
  by (simp add: digit_value_def digit_char_def)

lemma is_digit_digit_char: "k < 10 \<Longrightarrow> is_digit (digit_char k)"
  by (simp add: is_digit_def digit_char_def)

lemma length_pad: "length (pad w n) = w"
  by (induction w arbitrary: n) simp_all

lemma all_digits_pad: "list_all is_digit (pad w n)"
  by (induction w arbitrary: n) (simp_all add: is_digit_digit_char)

lemma value_pad:
  "n < 10 ^ w \<Longrightarrow> foldl (\<lambda>a c. 10 * a + digit_value c) 0 (pad w n) = n"
proof (induction w arbitrary: n)
  case 0
  then show ?case by simp
next
  case (Suc w)
  then have "n div 10 < 10 ^ w" by (simp add: less_mult_imp_div_less mult.commute)
  with Suc.IH have "foldl (\<lambda>a c. 10 * a + digit_value c) 0 (pad w (n div 10)) = n div 10" .
  then show ?case by (simp add: digit_value_digit_char)
qed

lemma number_of_digits_pad: "n < 10 ^ w \<Longrightarrow> number_of_digits (pad w n) = Some n"
  by (simp add: number_of_digits_def all_digits_pad value_pad)

text \<open>The fields of the part after the year are where the parser looks for them.\<close>

lemma length_2: "length xs = 2 \<Longrightarrow> \<exists>a b. xs = [a, b]"
  by (auto simp: length_Suc_conv numeral_2_eq_2)

lemma length_3: "length xs = 3 \<Longrightarrow> \<exists>a b c. xs = [a, b, c]"
  by (auto simp: length_Suc_conv numeral_3_eq_3)

lemma time_part_fields:
  assumes "length M = 2" "length D = 2" "length H = 2" "length Mi = 2" "length S = 2"
    "length Ms = 3"
    and r: "r = ''-'' @ M @ ''-'' @ D @ ''T'' @ H @ '':'' @ Mi @ '':'' @ S @ ''.'' @ Ms @ ''Z''"
  shows "length r = 20"
    and "[r ! 0, r ! 3, r ! 6, r ! 9, r ! 12, r ! 15, r ! 19] = ''--T::.Z''"
    and "take 2 (drop 1 r) = M" and "take 2 (drop 4 r) = D" and "take 2 (drop 7 r) = H"
    and "take 2 (drop 10 r) = Mi" and "take 2 (drop 13 r) = S" and "take 3 (drop 16 r) = Ms"
proof -
  from assms(1-6) obtain m1 m2 d1 d2 h1 h2 i1 i2 s1 s2 l1 l2 l3 where
    "M = [m1, m2]" "D = [d1, d2]" "H = [h1, h2]" "Mi = [i1, i2]" "S = [s1, s2]" "Ms = [l1, l2, l3]"
    by (metis length_2 length_3)
  then have e: "r = [CHR ''-'', m1, m2, CHR ''-'', d1, d2, CHR ''T'', h1, h2, CHR '':'', i1, i2,
      CHR '':'', s1, s2, CHR ''.'', l1, l2, l3, CHR ''Z'']" "M = [m1, m2]" "D = [d1, d2]"
      "H = [h1, h2]" "Mi = [i1, i2]" "S = [s1, s2]" "Ms = [l1, l2, l3]"
    using r by simp_all
  show "length r = 20"
    and "[r ! 0, r ! 3, r ! 6, r ! 9, r ! 12, r ! 15, r ! 19] = ''--T::.Z''"
    and "take 2 (drop 1 r) = M" and "take 2 (drop 4 r) = D" and "take 2 (drop 7 r) = H"
    and "take 2 (drop 10 r) = Mi" and "take 2 (drop 13 r) = S" and "take 3 (drop 16 r) = Ms"
    unfolding e by simp_all
qed

text \<open>The year string of a year of at most six digits reads back as the year.\<close>

lemma not_digit_sign: "\<not> is_digit CHR ''+''" "\<not> is_digit CHR ''-''"
  by (simp_all add: is_digit_def)

lemma pad_head: "0 < w \<Longrightarrow> \<exists>c cs. pad w n = c # cs \<and> is_digit c"
proof -
  assume "0 < w"
  then have "pad w n \<noteq> []" using length_pad [of w n] by auto
  then obtain c cs where p: "pad w n = c # cs" by (cases "pad w n") auto
  with all_digits_pad [of w n] have "is_digit c" by simp
  with p show ?thesis by blast
qed

lemma parse_year_plain:
  assumes "c \<noteq> CHR ''+''" "c \<noteq> CHR ''-''"
  shows "parse_year (c # cs) =
     (if length (c # cs) < 4 then None
      else case number_of_digits (take 4 (c # cs)) of
             None \<Rightarrow> None
           | Some v \<Rightarrow> Some (int v, drop 4 (c # cs)))"
  using assms by (simp add: parse_year_def)

lemma parse_year_signed:
  assumes "c = CHR ''+'' \<or> c = CHR ''-''"
  shows "parse_year (c # cs) =
     (if length cs < 6 then None
      else case number_of_digits (take 6 cs) of
             None \<Rightarrow> None
           | Some v \<Rightarrow>
               if c = CHR ''-'' \<and> v = 0 then None
               else Some (if c = CHR ''-'' then - int v else int v, drop 6 cs))"
  using assms by (simp add: parse_year_def)

lemma parse_year_string:
  assumes "- 999999 \<le> y" "y \<le> 999999"
  shows "parse_year (year_string y @ r) = Some (y, r)"
proof (cases "0 \<le> y \<and> y \<le> 9999")
  case True
  obtain c cs where p: "pad 4 (nat y) = c # cs" and c: "is_digit c"
    using pad_head [of 4 "nat y"] by auto
  from c have s: "c \<noteq> CHR ''+''" "c \<noteq> CHR ''-''" using not_digit_sign by auto
  have t: "take 4 (pad 4 (nat y) @ r) = pad 4 (nat y)" "drop 4 (pad 4 (nat y) @ r) = r"
    by (simp_all add: length_pad)
  have "nat y < 10 ^ 4" using True by auto
  then have n: "number_of_digits (pad 4 (nat y)) = Some (nat y)"
    by (rule number_of_digits_pad)
  have l: "\<not> length (pad 4 (nat y) @ r) < 4" by (simp add: length_pad)
  have e: "c # (cs @ r) = pad 4 (nat y) @ r" by (simp add: p)
  from parse_year_plain [OF s, of "cs @ r"]
  have "parse_year (pad 4 (nat y) @ r) = Some (int (nat y), r)"
    unfolding e t n using l by simp
  with True show ?thesis by (simp add: year_string_def)
next
  case False
  define n where "n = nat \<bar>y\<bar>"
  define c where "c = (if y < 0 then CHR ''-'' else CHR ''+'')"
  have "n < 10 ^ 6" using assms by (auto simp: n_def)
  then have n: "number_of_digits (pad 6 n) = Some n"
    by (rule number_of_digits_pad)
  have t: "take 6 (pad 6 n @ r) = pad 6 n" "drop 6 (pad 6 n @ r) = r"
    by (simp_all add: length_pad)
  have l: "\<not> length (pad 6 n @ r) < 6" by (simp add: length_pad)
  have "c = CHR ''+'' \<or> c = CHR ''-''" by (simp add: c_def)
  from parse_year_signed [OF this, of "pad 6 n @ r"]
  have "parse_year (c # pad 6 n @ r) =
      (if c = CHR ''-'' \<and> n = 0 then None else Some (if c = CHR ''-'' then - int n else int n, r))"
    unfolding t n using l by simp
  moreover have "\<not> (c = CHR ''-'' \<and> n = 0)" using False by (auto simp: c_def n_def)
  moreover have "(if c = CHR ''-'' then - int n else int n) = y"
    by (simp add: c_def n_def)
  ultimately have "parse_year (c # pad 6 n @ r) = Some (y, r)" by simp
  moreover have "year_string y = c # pad 6 n"
    by (simp only: year_string_def c_def n_def if_not_P [OF False])
  ultimately show ?thesis by simp
qed

text \<open>
  The string that \<open>toISOString\<close> gives for a valid time value is read back by
  \<open>Date.parse\<close> as that time value.
\<close>

lemma time_of_day_range:
  shows "0 \<le> HourFromTime t" "HourFromTime t \<le> 23" "0 \<le> MinFromTime t" "MinFromTime t \<le> 59"
    "0 \<le> SecFromTime t" "SecFromTime t \<le> 59" "0 \<le> msFromTime t" "msFromTime t \<le> 999"
  by (simp_all add: HourFromTime_def MinFromTime_def SecFromTime_def msFromTime_def
      msPerSecond_def pos_mod_sign zle_diff1_eq [symmetric] del: zle_diff1_eq)

lemma Date_parse_toISOString:
  assumes "valid_time t"
  shows "\<exists>s. toISOString t = Inr s \<and> Date_parse s = Some t"
proof -
  define y where "y = YearFromTime t"
  define mo where "mo = nat (MonthFromTime t + 1)"
  define d where "d = nat (DateFromTime t)"
  define h where "h = nat (HourFromTime t)"
  define mi where "mi = nat (MinFromTime t)"
  define sec where "sec = nat (SecFromTime t)"
  define ms where "ms = nat (msFromTime t)"
  define r where "r = ''-'' @ pad 2 mo @ ''-'' @ pad 2 d @ ''T'' @ pad 2 h @ '':'' @ pad 2 mi
    @ '':'' @ pad 2 sec @ ''.'' @ pad 3 ms @ ''Z''"
  have iso: "toISOString t = Inr (year_string y @ r)"
    using assms by (simp add: toISOString_def y_def mo_def d_def h_def mi_def sec_def ms_def r_def)
  note yr = YearFromTime_range [OF assms]
  note mr = MonthFromTime_range(1,2) [of t]
  note dr = DateFromTime_range [of t]
  note tr = time_of_day_range [of t]
  have d31: "DateFromTime t \<le> 31"
    using dr(2) DaysInMonth_le_31 [OF mr, of "YearFromTime t"] by linarith
  have py: "parse_year (year_string y @ r) = Some (y, r)"
    using yr by (intro parse_year_string) (simp_all add: y_def)
  note f = time_part_fields [OF length_pad length_pad length_pad length_pad length_pad length_pad r_def]
  have w: "mo < 10 ^ 2" "d < 10 ^ 2" "h < 10 ^ 2" "mi < 10 ^ 2" "sec < 10 ^ 2" "ms < 10 ^ 3"
    using mr d31 tr by (simp_all add: mo_def d_def h_def mi_def sec_def ms_def)
  have fs: "digits_at r 1 2 = Some mo" "digits_at r 4 2 = Some d" "digits_at r 7 2 = Some h"
    "digits_at r 10 2 = Some mi" "digits_at r 13 2 = Some sec" "digits_at r 16 3 = Some ms"
    unfolding digits_at_def f using w by (simp_all add: number_of_digits_pad)
  have i: "int mo - 1 = MonthFromTime t" "int d = DateFromTime t" "int h = HourFromTime t"
    "int mi = MinFromTime t" "int sec = SecFromTime t" "int ms = msFromTime t"
    using mr dr(1) tr by (simp_all add: mo_def d_def h_def mi_def sec_def ms_def)
  have legal: "legal_fields y mo d h mi sec ms"
    unfolding legal_fields_def i y_def
    using mr dr tr by (auto simp: mo_def d_def h_def mi_def sec_def)
  have "MakeDate (MakeDay y (int mo - 1) (int d)) (MakeTime (int h) (int mi) (int sec) (int ms)) = t"
    unfolding i y_def MakeDay_fields
    using time_fields_recompose [of t] by (simp add: MakeDate_def MakeTime_def)
  moreover have "TimeClip t = Some t"
    using assms by (simp add: TimeClip_def valid_time_def)
  ultimately have "Date_parse (year_string y @ r) = Some t"
    using py f(1,2) fs legal by (simp add: Date_parse_def)
  with iso show ?thesis by blast
qed

text \<open>
  The time values of the New York examples and of the zone's two transitions, as dates;
  the last line is the local time of the autumn example, rendered as if it were UTC.
\<close>

lemma new_york_2025_instants:
  "toISOString 1741503600000 = Inr ''2025-03-09T07:00:00.000Z''"
  "toISOString 1762063200000 = Inr ''2025-11-02T06:00:00.000Z''"
  "toISOString 1762065000000 = Inr ''2025-11-02T06:30:00.000Z''"
  "toISOString 1762062000000 = Inr ''2025-11-02T05:40:00.000Z''"
  "toISOString 1741501800000 = Inr ''2025-03-09T06:30:00.000Z''"
  "toISOString 1741505400000 = Inr ''2025-03-09T07:30:00.000Z''"
  "toISOString (1762065000000 + new_york_2025 1762065000000 True) = Inr ''2025-11-02T01:30:00.000Z''"
  by code_simp+

section \<open>Properties of the serialization\<close>

text \<open>
  C7: for a token record whose two timestamps are valid time values, \<open>serializeToken\<close>
  succeeds, passes \<open>id\<close>, \<open>token\<close>, \<open>userId\<close> and \<open>scopes\<close> through unchanged, and
  renders \<open>createdAt\<close> and \<open>expiresAt\<close> as UTC date-time strings with milliseconds that
  \<open>Date.parse\<close> reads back as exactly the original time values.
\<close>

theorem serializeToken_roundtrip:
  assumes "valid_time (createdAt tok)" and "valid_time (expiresAt tok)"
  shows "\<exists>res. serializeToken tok = Inr res
    \<and> res_id res = id' tok \<and> res_token res = token tok
    \<and> res_userId res = userId tok \<and> res_scopes res = scopes tok
    \<and> Date_parse (res_createdAt res) = Some (createdAt tok)
    \<and> Date_parse (res_expiresAt res) = Some (expiresAt tok)"
proof -
  from Date_parse_toISOString [OF assms(1)] obtain c
    where c: "toISOString (createdAt tok) = Inr c" "Date_parse c = Some (createdAt tok)"
    by blast
  from Date_parse_toISOString [OF assms(2)] obtain x
    where x: "toISOString (expiresAt tok) = Inr x" "Date_parse x = Some (expiresAt tok)"
    by blast
  have "serializeToken tok =
      Inr (TokenResponse (id' tok) (token tok) (userId tok) (scopes tok) c x)"
    by (simp add: serializeToken_def c(1) x(1))
  with c(2) x(2) show ?thesis by simp
qed

theorem serializeToken_roundtrip_witness:
  "serializeToken test_token =
     Inr (TokenResponse ''test_id'' ''token_abc123'' ''user123'' [''read'', ''write'']
            ''2025-01-01T10:00:00.000Z'' ''2025-01-01T11:00:00.000Z'')
   \<and> Date_parse ''2025-01-01T10:00:00.000Z'' = Some 1735725600000
   \<and> Date_parse ''2025-01-01T11:00:00.000Z'' = Some 1735729200000"
proof -
  have e: "serializeToken test_token =
     Inr (TokenResponse ''test_id'' ''token_abc123'' ''user123'' [''read'', ''write'']
            ''2025-01-01T10:00:00.000Z'' ''2025-01-01T11:00:00.000Z'')"
    by code_simp
  have v: "valid_time (createdAt test_token)" "valid_time (expiresAt test_token)"
    by (simp_all add: test_token_def valid_time_def)
  from serializeToken_roundtrip [OF v] obtain res
    where r: "serializeToken test_token = Inr res"
      "Date_parse (res_createdAt res) = Some (createdAt test_token)"
      "Date_parse (res_expiresAt res) = Some (expiresAt test_token)"
    by blast
  from e r(1) have "res = TokenResponse ''test_id'' ''token_abc123'' ''user123'' [''read'', ''write'']
            ''2025-01-01T10:00:00.000Z'' ''2025-01-01T11:00:00.000Z''"
    by simp
  with r(2,3) e show ?thesis by (simp add: test_token_def)
qed

section \<open>Properties of the token string\<close>

text \<open>
  The token string is the prefix \<open>token_\<close> followed by the identifier drawn, so it is 42
  characters long for a 36-character identifier, and two token strings are equal only
  when the identifiers drawn are equal.
\<close>

lemma generateTokenString_form:
  "generateTokenString uuid = ''token_'' @ uuid
   \<and> length (generateTokenString uuid) = 6 + length uuid
   \<and> (generateTokenString u = generateTokenString v \<longleftrightarrow> u = v)"
  by (simp add: generateTokenString_def)


section \<open>Properties of create\<close>

lemma createToken_fixed_zone:
  assumes "\<not> list_ex (\<lambda>r. token r = generateTokenString uuid \<or> id' r = fresh_id) db"
    and "valid_time (now + m * msPerMinute)"
  shows "createToken (fixed_zone c) uuid now fresh_id db_now db uid scs m =
     Inr (\<lparr>id' = fresh_id, token = generateTokenString uuid, userId = uid, scopes = scs,
            createdAt = db_now, expiresAt = now + m * msPerMinute\<rparr>,
          db @ [\<lparr>id' = fresh_id, token = generateTokenString uuid, userId = uid, scopes = scs,
            createdAt = db_now, expiresAt = now + m * msPerMinute\<rparr>])"
proof -
  have "calculateExpiryDate (fixed_zone c) now m = Some (now + m * msPerMinute)"
    using assms(2) by (simp add: calculateExpiryDate_fixed_zone TimeClip_def valid_time_def)
  then show ?thesis
    using assms(1) by (simp add: createToken_def prisma_token_create_def Let_def)
qed

text \<open>
  C2, as the code has it: in a process whose local UTC offset is fixed, every record that
  create persists has as \<open>expiresAt\<close> the service's own clock reading plus the requested
  minutes and as \<open>createdAt\<close> the store's insertion time, read separately; so
  \<open>expiresAt - createdAt\<close> is the requested duration less the time between the two clock
  readings. (Lemma \<open>createToken_fixed_zone\<close>: the create succeeds whenever the token
  string and the id are new and the expiry is a valid time value.)
\<close>

theorem createToken_expiry:
  assumes "createToken (fixed_zone c) uuid now fresh_id db_now db uid scs m = Inr (row, db')"
  shows "expiresAt row = now + m * msPerMinute \<and> createdAt row = db_now
     \<and> expiresAt row - createdAt row = m * msPerMinute - (db_now - now)
     \<and> db' = db @ [row]"
  using assms
  by (auto simp: createToken_def prisma_token_create_def calculateExpiryDate_fixed_zone
      TimeClip_def Let_def split: if_splits)

theorem createToken_expiry_witness:
  "createToken (fixed_zone 0) ''0b0e7a52-7c1f-4c6e-9d57-3f1f5e2a9c10'' 1764583200000 ''id1''
       1764583200005 [] ''user123'' [''read'', ''write''] 60
     = Inr (sample_created, [sample_created])
   \<and> expiresAt sample_created = 1764583200000 + 60 * msPerMinute
   \<and> createdAt sample_created = 1764583200005
   \<and> expiresAt sample_created - createdAt sample_created
       = 60 * msPerMinute - (1764583200005 - 1764583200000)"
proof -
  have "\<not> list_ex (\<lambda>r. token r = generateTokenString ''0b0e7a52-7c1f-4c6e-9d57-3f1f5e2a9c10''
      \<or> id' r = ''id1'') []"
    by simp
  moreover have "valid_time (1764583200000 + 60 * msPerMinute)"
    by (simp add: valid_time_def msPerMinute_def)
  ultimately have h: "createToken (fixed_zone 0) ''0b0e7a52-7c1f-4c6e-9d57-3f1f5e2a9c10''
       1764583200000 ''id1'' 1764583200005 [] ''user123'' [''read'', ''write''] 60
     = Inr (sample_created, [sample_created])"
    by (simp add: createToken_fixed_zone generateTokenString_def msPerMinute_def
        sample_created_def)
  from createToken_expiry [OF h] h show ?thesis by simp
qed

text \<open>
  C2 as stated fails: under UTC, a request for 60 minutes served at
  2025-12-01T10:00:00.000Z whose row the store inserts five milliseconds later is
  persisted with \<open>expiresAt - createdAt\<close> five milliseconds short of 60 minutes.
\<close>

theorem createToken_expiry_counterexample:
  "createToken (fixed_zone 0) ''0b0e7a52-7c1f-4c6e-9d57-3f1f5e2a9c10'' 1764583200000 ''id1''
       1764583200005 [] ''user123'' [''read'', ''write''] 60
     = Inr (sample_created, [sample_created])
   \<and> expiresAt sample_created - createdAt sample_created = 60 * msPerMinute - 5
   \<and> expiresAt sample_created - createdAt sample_created \<noteq> 60 * msPerMinute"
proof -
  have "\<not> list_ex (\<lambda>r. token r = generateTokenString ''0b0e7a52-7c1f-4c6e-9d57-3f1f5e2a9c10''
      \<or> id' r = ''id1'') []"
    by simp
  moreover have "valid_time (1764583200000 + 60 * msPerMinute)"
    by (simp add: valid_time_def msPerMinute_def)
  ultimately show ?thesis
    by (simp add: createToken_fixed_zone generateTokenString_def msPerMinute_def
        sample_created_def)
qed

section \<open>Properties of the listing\<close>

lemma findMany_mset:
  "mset (prisma_token_findMany db uid now) =
     mset (filter (\<lambda>r. userId r = uid \<and> now < expiresAt r) db)"
  by (simp add: prisma_token_findMany_def)

lemma findMany_sorted:
  "sorted_wrt (\<lambda>a b. createdAt b \<le> createdAt a) (prisma_token_findMany db uid now)"
proof -
  have "sorted (map (\<lambda>r. - createdAt r) (prisma_token_findMany db uid now))"
    by (simp add: prisma_token_findMany_def)
  then show ?thesis by (simp add: sorted_map)
qed

text \<open>
  C1: \<open>getActiveTokensForUser\<close> returns exactly the stored records (with their
  multiplicity) whose \<open>userId\<close> equals the argument and whose \<open>expiresAt\<close> is strictly
  later than the clock reading of the call, most recently created first; no returned
  record is expired at that reading; the result is empty exactly when no stored record
  qualifies; and the store is returned as it was.
\<close>

theorem getActiveTokensForUser_active:
  assumes "getActiveTokensForUser now db uid = (rows, db')"
  shows "db' = db
    \<and> mset rows = mset (filter (\<lambda>r. userId r = uid \<and> now < expiresAt r) db)
    \<and> set rows = {r \<in> set db. userId r = uid \<and> now < expiresAt r}
    \<and> sorted_wrt (\<lambda>a b. createdAt b \<le> createdAt a) rows
    \<and> (\<forall>r \<in> set rows. \<not> isTokenExpired now (expiresAt r))
    \<and> (rows = [] \<longleftrightarrow> (\<forall>r \<in> set db. \<not> (userId r = uid \<and> now < expiresAt r)))"
proof -
  have rows: "rows = prisma_token_findMany db uid now" and db: "db' = db"
    using assms by (auto simp: getActiveTokensForUser_def)
  have m: "mset rows = mset (filter (\<lambda>r. userId r = uid \<and> now < expiresAt r) db)"
    by (simp add: rows findMany_mset)
  have s: "set rows = {r \<in> set db. userId r = uid \<and> now < expiresAt r}"
    using mset_eq_setD [OF m] by auto
  have "rows = [] \<longleftrightarrow> set rows = {}" by simp
  also have "\<dots> \<longleftrightarrow> (\<forall>r \<in> set db. \<not> (userId r = uid \<and> now < expiresAt r))"
    unfolding s by blast
  finally have e: "rows = [] \<longleftrightarrow> (\<forall>r \<in> set db. \<not> (userId r = uid \<and> now < expiresAt r))" .
  have x: "\<forall>r \<in> set rows. \<not> isTokenExpired now (expiresAt r)"
    unfolding s by (simp add: isTokenExpired_def)
  have o: "sorted_wrt (\<lambda>a b. createdAt b \<le> createdAt a) rows"
    unfolding rows by (rule findMany_sorted)
  show ?thesis
    by (intro conjI; fact)
qed

theorem getActiveTokensForUser_active_witness:
  "getActiveTokensForUser 1000 sample_store ''alice'' =
     ([sample_token ''t4'' ''alice'' 300 6000, sample_token ''t1'' ''alice'' 100 5000], sample_store)
   \<and> mset [sample_token ''t4'' ''alice'' 300 6000, sample_token ''t1'' ''alice'' 100 5000] =
       mset (filter (\<lambda>r. userId r = ''alice'' \<and> 1000 < expiresAt r) sample_store)
   \<and> sorted_wrt (\<lambda>a b. createdAt b \<le> createdAt a)
       [sample_token ''t4'' ''alice'' 300 6000, sample_token ''t1'' ''alice'' 100 5000]
   \<and> \<not> isTokenExpired 1000 (expiresAt (sample_token ''t4'' ''alice'' 300 6000))"
proof -
  have h: "getActiveTokensForUser 1000 sample_store ''alice'' =
     ([sample_token ''t4'' ''alice'' 300 6000, sample_token ''t1'' ''alice'' 100 5000], sample_store)"
    by (simp add: getActiveTokensForUser_def prisma_token_findMany_def sample_store_def
        sample_token_def)
  note t = getActiveTokensForUser_active [OF h]
  have "sample_token ''t4'' ''alice'' 300 6000
      \<in> set [sample_token ''t4'' ''alice'' 300 6000, sample_token ''t1'' ''alice'' 100 5000]"
    by simp
  with t have "\<not> isTokenExpired 1000 (expiresAt (sample_token ''t4'' ''alice'' 300 6000))"
    by blast
  with h t show ?thesis by blast
qed

section \<open>Properties of the expiry predicate\<close>

text \<open>
  C3: \<open>isTokenExpired\<close> is true exactly when the current time is strictly later than the
  expiry: at the expiry instant itself and one millisecond before it the token is not
  expired, one millisecond after it the token is expired.
\<close>

theorem isTokenExpired_strict:
  "isTokenExpired t e = (t > e) \<and> isTokenExpired e e = False \<and>
   isTokenExpired (e + 1) e = True \<and> isTokenExpired (e - 1) e = False"
  by (simp add: isTokenExpired_def)

section \<open>Properties of the API key gate\<close>

text \<open>
  C9: when the configured API key is the empty string, the gate lets every request
  through, whatever key it presents and also when it presents none.
\<close>

theorem validateApiKey_empty_configured:
  "validateApiKey (Some []) apiKey = True"
  by (simp add: validateApiKey_def falsy_def)

text \<open>
  C6, as the code has it: the gate is open when no key is configured or the configured
  key is the empty string; with a non-empty configured key it succeeds exactly when the
  presented key is present and equal to the configured key.
\<close>

theorem validateApiKey_gate:
  "validateApiKey None apiKey = True \<and>
   validateApiKey (Some []) apiKey = True \<and>
   (k \<noteq> [] \<longrightarrow> validateApiKey (Some k) apiKey = (apiKey = Some k)) \<and>
   (k \<noteq> [] \<longrightarrow> validateApiKey (Some k) None = False)"
  by (simp add: validateApiKey_def falsy_def)

theorem validateApiKey_gate_witness:
  "validateApiKey None (Some ''x'') = True \<and>
   validateApiKey (Some []) None = True \<and>
   validateApiKey (Some ''secret'') (Some ''secret'') = True \<and>
   validateApiKey (Some ''secret'') (Some ''Secret'') = False \<and>
   validateApiKey (Some ''secret'') None = False"
  using validateApiKey_gate [of "Some ''x''" "''secret''"]
    validateApiKey_gate [of "None" "''secret''"]
    validateApiKey_gate [of "Some ''secret''" "''secret''"]
    validateApiKey_gate [of "Some ''Secret''" "''secret''"]
  by simp

text \<open>
  C6 as stated fails: with the empty string configured, a request that presents no key
  is let through, although a key is configured and the presented key is not equal to it.
\<close>

theorem validateApiKey_configured_counterexample:
  "validateApiKey (Some []) None = True \<and> (None :: string option) \<noteq> Some []"
  by (simp add: validateApiKey_def falsy_def)

section \<open>Properties of the request validation\<close>

text \<open>What each of the three field schemas accepts, and what it returns then.\<close>

lemma z_string_min1_Inr:
  "z_string_min1 msg p v = Inr s \<longleftrightarrow> v = Some (JString s) \<and> s \<noteq> []"
  by (auto simp: z_string_min1_def split: option.splits json.splits)

lemma z_string_min1_issues:
  "issues_of (z_string_min1 msg p v) = [] \<longleftrightarrow> (\<exists>s. v = Some (JString s) \<and> s \<noteq> [])"
  by (auto simp: z_string_min1_def issues_of_def split: option.splits json.splits)

lemma elems_issues:
  "concat (map issues_of (map (\<lambda>(i, x). z_string_min1 msg (p @ [Index i]) (Some x)) (enumerate k xs))) = []
     \<longleftrightarrow> (\<forall>x \<in> set xs. \<exists>s. x = JString s \<and> s \<noteq> [])"
proof (induction xs arbitrary: k)
  case Nil
  then show ?case by simp
next
  case (Cons x xs)
  then show ?case by (simp add: z_string_min1_issues)
qed

lemma elems_values:
  "(\<forall>x \<in> set xs. \<exists>s. x = JString s \<and> s \<noteq> []) \<Longrightarrow>
   map JString (values_of (map (\<lambda>(i, x). z_string_min1 msg (p @ [Index i]) (Some x)) (enumerate k xs))) = xs"
proof (induction xs arbitrary: k)
  case Nil
  then show ?case by (simp add: values_of_def)
next
  case (Cons x xs)
  then obtain s where "x = JString s" "s \<noteq> []" by auto
  moreover have "map JString (values_of (map (\<lambda>(i, x). z_string_min1 msg (p @ [Index i]) (Some x))
      (enumerate (Suc k) xs))) = xs"
    using Cons by simp
  ultimately show ?case
    by (simp add: values_of_def z_string_min1_def)
qed

lemma scopes_schema_Inr:
  "scopes_schema p v = Inr ss \<longleftrightarrow>
     (\<exists>xs. v = Some (JArray xs) \<and> xs \<noteq> [] \<and> xs = map JString ss \<and> (\<forall>s \<in> set ss. s \<noteq> []))"
  (is "?L \<longleftrightarrow> ?R")
proof
  assume ?L
  then obtain xs where v: "v = Some (JArray xs)"
    by (auto simp: scopes_schema_def split: option.splits json.splits)
  let ?rs = "map (\<lambda>(i, x). z_string_min1 ''Each scope must be a non-empty string''
                                   (p @ [Index i]) (Some x)) (enumerate 0 xs)"
  from \<open>?L\<close> v have ne: "xs \<noteq> []" and iss: "concat (map issues_of ?rs) = []" and ss: "ss = values_of ?rs"
    by (auto simp: scopes_schema_def Let_def split: if_splits)
  from iss have el: "\<forall>x \<in> set xs. \<exists>s. x = JString s \<and> s \<noteq> []"
    by (simp only: elems_issues)
  have "map JString ss = xs" unfolding ss by (rule elems_values [OF el])
  moreover from this el have "\<forall>s \<in> set ss. s \<noteq> []" by auto
  ultimately show ?R using v ne by auto
next
  assume ?R
  then obtain xs where v: "v = Some (JArray xs)" and ne: "xs \<noteq> []" and xs: "xs = map JString ss"
    and ss: "\<forall>s \<in> set ss. s \<noteq> []" by auto
  let ?rs = "map (\<lambda>(i, x). z_string_min1 ''Each scope must be a non-empty string''
                                   (p @ [Index i]) (Some x)) (enumerate 0 xs)"
  have el: "\<forall>x \<in> set xs. \<exists>s. x = JString s \<and> s \<noteq> []" using xs ss by auto
  then have iss: "concat (map issues_of ?rs) = []" by (simp only: elems_issues)
  have "map JString (values_of ?rs) = map JString ss"
    using elems_values [OF el] xs by simp
  then have "values_of ?rs = ss"
    by (simp add: inj_on_def inj_map_eq_map [of JString] inj_def)
  with iss ne v show ?L
    by (simp add: scopes_schema_def Let_def)
qed

lemma expiresInMinutes_schema_Inr:
  "expiresInMinutes_schema p v = Inr n \<longleftrightarrow>
     (\<exists>q. v = Some (JNumber q) \<and> q = of_int n \<and> 0 < n \<and> n \<le> 525600)"
  by (auto simp: expiresInMinutes_schema_def isInteger_def Let_def split: option.splits json.splits if_splits)

text \<open>What the object schema accepts.\<close>

lemma success_iff: "success r \<longleftrightarrow> (\<exists>d. r = Inr d)"
  by (cases r) (simp_all add: success_def)

lemma Ints_rat_iff: "(q::rat) \<in> \<int> \<longleftrightarrow> (\<exists>n::int. q = of_int n)"
  by (auto simp: Ints_def)

lemma createTokenSchema_parse_Inr:
  "createTokenSchema_parse body = Inr d \<longleftrightarrow>
     (\<exists>kvs. body = JObject kvs
        \<and> map_of kvs ''userId'' = Some (JString (input_userId d)) \<and> input_userId d \<noteq> []
        \<and> map_of kvs ''scopes'' = Some (JArray (map JString (input_scopes d)))
        \<and> input_scopes d \<noteq> [] \<and> (\<forall>s \<in> set (input_scopes d). s \<noteq> [])
        \<and> map_of kvs ''expiresInMinutes'' = Some (JNumber (of_int (input_expiresInMinutes d)))
        \<and> 0 < input_expiresInMinutes d \<and> input_expiresInMinutes d \<le> 525600)"
  (is "?L \<longleftrightarrow> ?R")
proof
  assume l: ?L
  then obtain kvs where b: "body = JObject kvs"
    by (auto simp: createTokenSchema_parse_def split: json.splits)
  from l b obtain u ss n where
    u: "z_string_min1 ''userId must not be empty'' [Key ''userId''] (map_of kvs ''userId'') = Inr u"
    and ss: "scopes_schema [Key ''scopes''] (map_of kvs ''scopes'') = Inr ss"
    and n: "expiresInMinutes_schema [Key ''expiresInMinutes''] (map_of kvs ''expiresInMinutes'') = Inr n"
    and d: "d = CreateTokenInput u ss n"
    by (auto simp: createTokenSchema_parse_def userId_schema_def Let_def split: sum.splits)
  show ?R
    using b u ss n unfolding d z_string_min1_Inr scopes_schema_Inr expiresInMinutes_schema_Inr
    by auto
next
  assume ?R
  then obtain kvs where b: "body = JObject kvs"
    and u: "map_of kvs ''userId'' = Some (JString (input_userId d)) \<and> input_userId d \<noteq> []"
    and ss: "\<exists>xs. map_of kvs ''scopes'' = Some (JArray xs) \<and> xs \<noteq> []
        \<and> xs = map JString (input_scopes d) \<and> (\<forall>s \<in> set (input_scopes d). s \<noteq> [])"
    and n: "\<exists>q. map_of kvs ''expiresInMinutes'' = Some (JNumber q)
        \<and> q = of_int (input_expiresInMinutes d)
        \<and> 0 < input_expiresInMinutes d \<and> input_expiresInMinutes d \<le> 525600"
    by auto
  have "z_string_min1 ''userId must not be empty'' [Key ''userId''] (map_of kvs ''userId'')
      = Inr (input_userId d)"
    using u by (simp add: z_string_min1_Inr)
  moreover have "scopes_schema [Key ''scopes''] (map_of kvs ''scopes'') = Inr (input_scopes d)"
    using ss by (simp add: scopes_schema_Inr)
  moreover have "expiresInMinutes_schema [Key ''expiresInMinutes''] (map_of kvs ''expiresInMinutes'')
      = Inr (input_expiresInMinutes d)"
    using n by (simp add: expiresInMinutes_schema_Inr)
  ultimately show ?L
    by (simp add: b createTokenSchema_parse_def userId_schema_def Let_def)
qed

lemma strings_of_json:
  "(\<forall>x \<in> set xs. \<exists>s. x = JString s \<and> 1 \<le> length s) \<Longrightarrow>
   \<exists>ss. xs = map JString ss \<and> (\<forall>t \<in> set ss. t \<noteq> [])"
proof (induction xs)
  case Nil
  then show ?case by simp
next
  case (Cons x xs)
  then obtain ss where ss: "xs = map JString ss" "\<forall>t \<in> set ss. t \<noteq> []" by auto
  from Cons.prems obtain t where t: "x = JString t" "t \<noteq> []"
    by (auto simp: Suc_le_eq)
  have "x # xs = map JString (t # ss) \<and> (\<forall>t \<in> set (t # ss). t \<noteq> [])"
    using ss t by simp
  then show ?case by (rule exI)
qed

lemma createTokenSchema_accepts_object:
  "success (createTokenSchema_parse body) \<longleftrightarrow>
     (\<exists>kvs u xs q. body = JObject kvs
        \<and> map_of kvs ''userId'' = Some (JString u) \<and> 1 \<le> length u
        \<and> map_of kvs ''scopes'' = Some (JArray xs) \<and> 1 \<le> length xs
        \<and> (\<forall>x \<in> set xs. \<exists>s. x = JString s \<and> 1 \<le> length s)
        \<and> map_of kvs ''expiresInMinutes'' = Some (JNumber q)
        \<and> q \<in> \<int> \<and> 0 < q \<and> q \<le> 525600)"
  (is "?L \<longleftrightarrow> ?R")
proof
  assume ?L
  then obtain d where "createTokenSchema_parse body = Inr d"
    by (auto simp: success_iff)
  then have "\<exists>kvs. body = JObject kvs
        \<and> map_of kvs ''userId'' = Some (JString (input_userId d)) \<and> input_userId d \<noteq> []
        \<and> map_of kvs ''scopes'' = Some (JArray (map JString (input_scopes d)))
        \<and> input_scopes d \<noteq> [] \<and> (\<forall>s \<in> set (input_scopes d). s \<noteq> [])
        \<and> map_of kvs ''expiresInMinutes'' = Some (JNumber (of_int (input_expiresInMinutes d)))
        \<and> 0 < input_expiresInMinutes d \<and> input_expiresInMinutes d \<le> 525600"
    by (simp only: createTokenSchema_parse_Inr)
  then obtain kvs where b: "body = JObject kvs"
        and u: "map_of kvs ''userId'' = Some (JString (input_userId d))" "input_userId d \<noteq> []"
        and s: "map_of kvs ''scopes'' = Some (JArray (map JString (input_scopes d)))"
          "input_scopes d \<noteq> []" "\<forall>s \<in> set (input_scopes d). s \<noteq> []"
        and n: "map_of kvs ''expiresInMinutes'' = Some (JNumber (of_int (input_expiresInMinutes d)))"
          "0 < input_expiresInMinutes d" "input_expiresInMinutes d \<le> 525600"
    by (elim exE conjE)
  have u': "1 \<le> length (input_userId d)" using u(2) by (cases "input_userId d") simp_all
  have s': "1 \<le> length (map JString (input_scopes d))"
    using s(2) by (cases "input_scopes d") simp_all
  have e: "\<forall>x \<in> set (map JString (input_scopes d)). \<exists>t. x = JString t \<and> 1 \<le> length t"
    using s(3) by (auto simp: Suc_le_eq)
  have i: "(of_int (input_expiresInMinutes d) :: rat) \<in> \<int>" by simp
  have lo: "(0::rat) < of_int (input_expiresInMinutes d)"
    and hi: "(of_int (input_expiresInMinutes d) :: rat) \<le> 525600"
    using n(2,3) by simp_all
  show ?R
    apply (rule exI [of _ kvs], rule exI [of _ "input_userId d"])
    apply (rule exI [of _ "map JString (input_scopes d)"])
    apply (rule exI [of _ "of_int (input_expiresInMinutes d)"])
    apply (intro conjI)
    by (fact b u(1) u' s(1) s' e n(1) i lo hi)+
next
  assume ?R
  then obtain kvs u xs q where b: "body = JObject kvs"
      and u: "map_of kvs ''userId'' = Some (JString u)" "1 \<le> length u"
      and s: "map_of kvs ''scopes'' = Some (JArray xs)" "1 \<le> length xs"
         "\<forall>x \<in> set xs. \<exists>s. x = JString s \<and> 1 \<le> length s"
      and n: "map_of kvs ''expiresInMinutes'' = Some (JNumber q)" "q \<in> \<int>" "0 < q" "q \<le> 525600"
    by (elim exE conjE)
  from n(2) obtain k :: int where k: "q = of_int k" by (auto simp: Ints_rat_iff)
  from strings_of_json [OF s(3)]
  obtain ss where ss: "xs = map JString ss" "\<forall>t \<in> set ss. t \<noteq> []" by (elim exE conjE)
  have u': "u \<noteq> []" using u(2) by auto
  have s': "ss \<noteq> []" using s(2) ss(1) by auto
  have lo: "0 < k" using n(3) by (simp add: k)
  have hi: "k \<le> 525600" using n(4) by (simp add: k)
  have "createTokenSchema_parse body = Inr (CreateTokenInput u ss k)"
    apply (subst createTokenSchema_parse_Inr)
    apply (rule exI [of _ kvs])
    using b u(1) u' s(1) s' ss lo hi n(1) k by simp
  then show ?L by (simp add: success_def)
qed

lemma createTokenSchema_accepts_request:
  "success (createTokenSchema_parse (create_request u scs q)) \<longleftrightarrow>
     u \<noteq> [] \<and> scs \<noteq> [] \<and> (\<forall>s \<in> set scs. s \<noteq> []) \<and> q \<in> \<int> \<and> 0 < q \<and> q \<le> 525600"
proof -
  have "(\<forall>x \<in> set (map JString scs). \<exists>s. x = JString s \<and> 1 \<le> length s) \<longleftrightarrow> (\<forall>s \<in> set scs. s \<noteq> [])"
    by (auto simp: Suc_le_eq)
  then show ?thesis
    by (simp add: createTokenSchema_accepts_object create_request_def Suc_le_eq)
qed

text \<open>
  C5: the create-request schema accepts a body exactly when it is an object whose
  \<open>userId\<close> is a string of length at least 1, whose \<open>scopes\<close> is an array of at least
  one element, each a string of length at least 1, and whose \<open>expiresInMinutes\<close> is a
  number that is an integer, greater than 0 and at most 525600. For a body built from a
  user id, a list of scope strings and a number this is: the user id is not empty, there
  is a scope, no scope is empty, and the number is an integer in that range.
\<close>

theorem createTokenSchema_accepts:
  "(success (createTokenSchema_parse body) \<longleftrightarrow>
     (\<exists>kvs u xs q. body = JObject kvs
        \<and> map_of kvs ''userId'' = Some (JString u) \<and> 1 \<le> length u
        \<and> map_of kvs ''scopes'' = Some (JArray xs) \<and> 1 \<le> length xs
        \<and> (\<forall>x \<in> set xs. \<exists>s. x = JString s \<and> 1 \<le> length s)
        \<and> map_of kvs ''expiresInMinutes'' = Some (JNumber q)
        \<and> q \<in> \<int> \<and> 0 < q \<and> q \<le> 525600))
   \<and> (success (createTokenSchema_parse (create_request uid scs mins)) \<longleftrightarrow>
     uid \<noteq> [] \<and> scs \<noteq> [] \<and> (\<forall>s \<in> set scs. s \<noteq> []) \<and> mins \<in> \<int> \<and> 0 < mins \<and> mins \<le> 525600)"
  by (rule conjI [OF createTokenSchema_accepts_object createTokenSchema_accepts_request])

theorem createTokenSchema_accepts_witness:
  "success (createTokenSchema_parse (create_request ''user123'' [''read''] 525600))
   \<and> \<not> success (createTokenSchema_parse (create_request ''user123'' [''read''] 525601))
   \<and> \<not> success (createTokenSchema_parse (create_request ''user123'' [''read''] 0))
   \<and> \<not> success (createTokenSchema_parse (create_request ''user123'' [''read''] (- 10)))
   \<and> \<not> success (createTokenSchema_parse (create_request ''user123'' [''read''] (121 / 2)))
   \<and> \<not> success (createTokenSchema_parse (create_request ''user123'' [] 60))
   \<and> \<not> success (createTokenSchema_parse (create_request ''user123'' [''read'', ''''] 60))
   \<and> \<not> success (createTokenSchema_parse (create_request '''' [''read''] 60))"
  using
    createTokenSchema_accepts [THEN conjunct2, of "''user123''" "[''read'']" 525600]
    createTokenSchema_accepts [THEN conjunct2, of "''user123''" "[''read'']" 525601]
    createTokenSchema_accepts [THEN conjunct2, of "''user123''" "[''read'']" 0]
    createTokenSchema_accepts [THEN conjunct2, of "''user123''" "[''read'']" "- 10"]
    createTokenSchema_accepts [THEN conjunct2, of "''user123''" "[''read'']" "121 / 2"]
    createTokenSchema_accepts [THEN conjunct2, of "''user123''" "[]" 60]
    createTokenSchema_accepts [THEN conjunct2, of "''user123''" "[''read'', '''']" 60]
    createTokenSchema_accepts [THEN conjunct2, of "''''" "[''read'']" 60]
  by simp

section \<open>Properties of the create controller\<close>

lemma createTokenController_status_400:
  "status (fst (createTokenController env dr db req)) = 400 \<longleftrightarrow>
     validateApiKey (API_KEY env) (header_X_API_Key req)
     \<and> (\<exists>b. json_body req = Some b \<and> \<not> success (createTokenSchema_parse b))"
  by (auto simp: createTokenController_def request_json_def unauthorized_def internal_error_def
      validation_failed_def success_def split: option.splits sum.splits prod.splits)

text \<open>
  C10, as the code has it: a POST request that fails the API key gate is answered with 401
  before its body is read, whatever the body is, and the store is untouched; a POST
  request that passes the gate and whose body is not parseable as JSON gets the response
  500 with \<open>{error: "Internal server error"}\<close>, and the store is untouched; the response
  400 is given exactly to the requests that pass the gate, whose body is JSON and which
  the schema rejects.
\<close>

theorem createTokenController_unparseable_body:
  "(\<not> validateApiKey (API_KEY env) (header_X_API_Key req) \<longrightarrow>
      createTokenController env dr db req =
        (NextResponse (ErrorResponse ''Unauthorized. Valid X-API-Key header required.'' None) 401,
         db))
   \<and> (validateApiKey (API_KEY env) (header_X_API_Key req) \<and> json_body req = None \<longrightarrow>
      createTokenController env dr db req =
        (NextResponse (ErrorResponse ''Internal server error'' None) 500, db))
   \<and> (status (fst (createTokenController env dr db req)) = 400 \<longleftrightarrow>
        validateApiKey (API_KEY env) (header_X_API_Key req)
        \<and> (\<exists>b. json_body req = Some b \<and> \<not> success (createTokenSchema_parse b)))"
  using createTokenController_status_400 [of env dr db req]
  by (simp add: createTokenController_def request_json_def internal_error_def unauthorized_def)

theorem createTokenController_unparseable_body_witness:
  "validateApiKey (API_KEY sample_env) (Some ''secret'')
   \<and> createTokenController sample_env sample_drawn sample_store
        \<lparr>header_X_API_Key = Some ''secret'', json_body = None, searchParam_userId = None\<rparr>
      = (NextResponse (ErrorResponse ''Internal server error'' None) 500, sample_store)
   \<and> \<not> validateApiKey (API_KEY sample_env) (Some ''wrong'')
   \<and> createTokenController sample_env sample_drawn sample_store
        \<lparr>header_X_API_Key = Some ''wrong'',
          json_body = Some (create_request ''user123'' [''read''] 60),
          searchParam_userId = None\<rparr>
      = (NextResponse (ErrorResponse ''Unauthorized. Valid X-API-Key header required.'' None) 401,
         sample_store)"
proof -
  have a: "validateApiKey (API_KEY sample_env) (Some ''secret'')"
    by (simp add: sample_env_def validateApiKey_def falsy_def)
  have b: "\<not> validateApiKey (API_KEY sample_env) (Some ''wrong'')"
    by (simp add: sample_env_def validateApiKey_def falsy_def)
  from a createTokenController_unparseable_body [of sample_env
      "\<lparr>header_X_API_Key = Some ''secret'', json_body = None, searchParam_userId = None\<rparr>"
      sample_drawn sample_store]
  have c: "createTokenController sample_env sample_drawn sample_store
        \<lparr>header_X_API_Key = Some ''secret'', json_body = None, searchParam_userId = None\<rparr>
      = (NextResponse (ErrorResponse ''Internal server error'' None) 500, sample_store)"
    by simp
  from b createTokenController_unparseable_body [of sample_env
      "\<lparr>header_X_API_Key = Some ''wrong'',
          json_body = Some (create_request ''user123'' [''read''] 60),
          searchParam_userId = None\<rparr>"
      sample_drawn sample_store]
  have d: "createTokenController sample_env sample_drawn sample_store
        \<lparr>header_X_API_Key = Some ''wrong'',
          json_body = Some (create_request ''user123'' [''read''] 60),
          searchParam_userId = None\<rparr>
      = (NextResponse (ErrorResponse ''Unauthorized. Valid X-API-Key header required.'' None) 401,
         sample_store)"
    by simp
  from a b c d show ?thesis by (intro conjI)
qed

text \<open>
  C10 as stated fails: with the key \<open>secret\<close> configured, a POST request that presents
  no key and whose body is not parseable as JSON is answered with 401, not 500.
\<close>

theorem createTokenController_unparseable_body_counterexample:
  "json_body \<lparr>header_X_API_Key = None, json_body = None, searchParam_userId = None\<rparr> = None
   \<and> createTokenController sample_env sample_drawn sample_store
        \<lparr>header_X_API_Key = None, json_body = None, searchParam_userId = None\<rparr>
      = (NextResponse (ErrorResponse ''Unauthorized. Valid X-API-Key header required.'' None) 401,
         sample_store)"
  by (simp add: createTokenController_def sample_env_def validateApiKey_def falsy_def
      unauthorized_def)

text \<open>
  The first scenario of the specification: with a valid key, the body
  \<open>{userId: "user123", scopes: ["read", "write"], expiresInMinutes: 60}\<close> is answered with
  201 and the new record, which the store holds afterwards.
\<close>

lemma createTokenController_created:
  "createTokenController sample_env sample_drawn []
        \<lparr>header_X_API_Key = Some ''secret'',
          json_body = Some (create_request ''user123'' [''read'', ''write''] 60),
          searchParam_userId = None\<rparr>
      = (NextResponse (TokenBody (TokenResponse ''id1''
            ''token_0b0e7a52-7c1f-4c6e-9d57-3f1f5e2a9c10'' ''user123'' [''read'', ''write'']
            ''2025-12-01T10:00:00.005Z'' ''2025-12-01T11:00:00.000Z'')) 201,
         [sample_created])"
  by code_simp

end
